theory Spec2Isabelle
  imports Main
begin

section \<open>Go strings and the library functions the code calls\<close>

text \<open>
  A Go string is a sequence of bytes, so it is modelled as \<open>string\<close> (a list of 8-bit
  characters): \<open>len\<close> is \<open>length\<close>, and the functions of package \<open>strings\<close> used by
  the code compare bytes.
\<close>

definition HasPrefix :: "string \<Rightarrow> string \<Rightarrow> bool" where
  "HasPrefix s pre = (length pre \<le> length s \<and> take (length pre) s = pre)"

definition HasSuffix :: "string \<Rightarrow> string \<Rightarrow> bool" where
  "HasSuffix s suf = (length suf \<le> length s \<and> drop (length s - length suf) s = suf)"

definition TrimSuffix :: "string \<Rightarrow> string \<Rightarrow> string" where
  "TrimSuffix s suf = (if HasSuffix s suf then take (length s - length suf) s else s)"

text \<open>\<open>strings.Index\<close>: the position of the first occurrence, \<open>None\<close> for Go's \<open>-1\<close>.\<close>

fun Index :: "string \<Rightarrow> string \<Rightarrow> nat option" where
  "Index [] sub = (if sub = [] then Some 0 else None)"
| "Index (c # cs) sub =
     (if HasPrefix (c # cs) sub then Some 0 else map_option Suc (Index cs sub))"

definition Contains :: "string \<Rightarrow> string \<Rightarrow> bool" where
  "Contains s sub = (Index s sub \<noteq> None)"

text \<open>\<open>strings.SplitN(s, sep, 2)\<close> for a separator that is not empty (the code's is \<open>"="\<close>).\<close>

definition SplitN_2 :: "string \<Rightarrow> string \<Rightarrow> string list" where
  "SplitN_2 s sep =
     (case Index s sep of
        None \<Rightarrow> [s]
      | Some i \<Rightarrow> [take i s, drop (i + length sep) s])"

fun Join :: "string list \<Rightarrow> string \<Rightarrow> string" where
  "Join [] sep = []"
| "Join [x] sep = x"
| "Join (x # y # ys) sep = x @ sep @ Join (y # ys) sep"

text \<open>\<open>strings.ReplaceAll\<close> where both the old and the new string are one byte.\<close>

definition ReplaceAll_byte :: "string \<Rightarrow> char \<Rightarrow> char \<Rightarrow> string" where
  "ReplaceAll_byte s old new = map (\<lambda>c. if c = old then new else c) s"

text \<open>
  \<open>for _, ch := range s\<close> decodes \<open>s\<close> as UTF-8, one rune at a time; a byte that starts no
  valid encoding is the rune U+FFFD of width 1. The loop body only uses \<open>string(ch)\<close>,
  the UTF-8 encoding of the rune, which for a valid rune is the byte sequence that was
  decoded and for U+FFFD is \<open>EF BF BD\<close>. So \<open>decodeRune\<close> returns \<open>string(ch)\<close> and the
  width, following the tables of package \<open>unicode/utf8\<close>.
\<close>

definition inRange :: "char \<Rightarrow> nat \<Rightarrow> nat \<Rightarrow> bool" where
  "inRange c lo hi = (lo \<le> of_char c \<and> of_char c \<le> hi)"

definition RuneError :: string where
  "RuneError = [CHR 0xEF, CHR 0xBF, CHR 0xBD]"

text \<open>The size of the encoding a first byte announces, and the range its second byte must lie in.\<close>

definition firstByte :: "char \<Rightarrow> (nat \<times> nat \<times> nat) option" where
  "firstByte c =
     (if inRange c 0xC2 0xDF then Some (2, 0x80, 0xBF)
      else if inRange c 0xE0 0xE0 then Some (3, 0xA0, 0xBF)
      else if inRange c 0xE1 0xEC then Some (3, 0x80, 0xBF)
      else if inRange c 0xED 0xED then Some (3, 0x80, 0x9F)
      else if inRange c 0xEE 0xEF then Some (3, 0x80, 0xBF)
      else if inRange c 0xF0 0xF0 then Some (4, 0x90, 0xBF)
      else if inRange c 0xF1 0xF3 then Some (4, 0x80, 0xBF)
      else if inRange c 0xF4 0xF4 then Some (4, 0x80, 0x8F)
      else None)"

definition decodeRune :: "string \<Rightarrow> string \<times> nat" where
  "decodeRune s =
     (case s of
        [] \<Rightarrow> (RuneError, 0)
      | c # cs \<Rightarrow>
          if inRange c 0 0x7F then ([c], 1)
          else (case firstByte c of
                  None \<Rightarrow> (RuneError, 1)
                | Some (sz, lo, hi) \<Rightarrow>
                    if length s < sz then (RuneError, 1)
                    else if \<not> inRange (s ! 1) lo hi then (RuneError, 1)
                    else if sz \<le> 2 then (take 2 s, 2)
                    else if \<not> inRange (s ! 2) 0x80 0xBF then (RuneError, 1)
                    else if sz \<le> 3 then (take 3 s, 3)
                    else if \<not> inRange (s ! 3) 0x80 0xBF then (RuneError, 1)
                    else (take 4 s, 4)))"

function runes :: "string \<Rightarrow> string list" where
  "runes [] = []"
| "runes (c # cs) =
     fst (decodeRune (c # cs)) # runes (drop (snd (decodeRune (c # cs))) (c # cs))"
  by pat_completeness auto
termination
proof (relation "measure length")
  show "wf (measure length)" by simp
next
  fix c :: char and cs :: string
  have "0 < snd (decodeRune (c # cs))"
    by (auto simp: decodeRune_def split: option.splits prod.splits)
  then show "(drop (snd (decodeRune (c # cs))) (c # cs), c # cs) \<in> measure length"
    by simp
qed

text \<open>\<open>contains\<close>: membership in a slice of strings, by a loop.\<close>

fun contains :: "string list \<Rightarrow> string \<Rightarrow> bool" where
  "contains [] item = False"
| "contains (s # slice) item = (if s = item then True else contains slice item)"

section \<open>The command model (package commandmodel)\<close>

datatype Flag = Flag
  (Long: string) (Short: string) (Required: bool) (Allowed: "string list") (Private: bool)

datatype Arg = Arg (Name: string) (Required: bool)

datatype EnvVar = EnvVar (Name: string) (Private: bool)

text \<open>
  A \<open>Command\<close> owns its children. The children of a node are never nil in a tree
  made by the builder, so \<open>Commands\<close> is a list of nodes.
\<close>

datatype Command = Command
  (Name: string)
  (Parents: "string list")
  (FullName: string)
  (ActionName: string)
  (Private: bool)
  (Expose: string)
  (Alias: "string list")
  (Filename: string)
  (Description: string)
  (Args: "Arg list")
  (Flags: "Flag list")
  (EnvVars: "EnvVar list")
  (Commands: "Command list")

record Settings =
  Env :: string
  SourceDir :: string
  ConfigPath :: string
  TargetDir :: string
  CommandsDir :: string
  LibDir :: string
  ExtraLibDirs :: "string list"
  PartialsExtension :: string
  TabIndent :: bool
  Formatter :: string
  EnableHeaderComment :: string
  EnableBash3Bouncer :: string
  EnableInspectArgs :: string
  EnableViewMarkers :: string
  EnableDepsArray :: string
  EnableEnvVarNamesArray :: string
  EnableSourcing :: string
  PrivateRevealKey :: string

definition Default :: Settings where
  "Default =
     \<lparr>Env = ''development'', SourceDir = ''src'', ConfigPath = ''%{source_dir}/bashly.yml'',
      TargetDir = ''.'', CommandsDir = '''', LibDir = ''lib'', ExtraLibDirs = [],
      PartialsExtension = ''sh'', TabIndent = False, Formatter = ''internal'',
      EnableHeaderComment = ''always'', EnableBash3Bouncer = ''always'',
      EnableInspectArgs = ''development'', EnableViewMarkers = ''development'',
      EnableDepsArray = ''always'', EnableEnvVarNamesArray = ''always'',
      EnableSourcing = ''development'', PrivateRevealKey = ''''\<rparr>"

text \<open>
  A configuration value (Go's \<open>any\<close>, as the YAML loader makes it): nil, a string, a
  boolean, a list \<open>[]any\<close>, a mapping \<open>map[string]any\<close>, or a value of any other type.
  A mapping is an association list read with \<open>map_of\<close>: \<open>m[k]\<close> is \<open>index m k\<close> (nil
  for an absent key), and the two-result form \<open>v, ok := m[k]\<close> is \<open>map_of m k\<close>.
\<close>

datatype any =
    AnyNil
  | AnyString string
  | AnyBool bool
  | AnyList "any list"
  | AnyMap "(string \<times> any) list"
  | AnyOther

definition index :: "(string \<times> any) list \<Rightarrow> string \<Rightarrow> any" where
  "index m k = (case map_of m k of None \<Rightarrow> AnyNil | Some v \<Rightarrow> v)"

definition asString :: "any \<Rightarrow> string \<times> bool" where
  "asString v = (case v of AnyString s \<Rightarrow> (s, True) | _ \<Rightarrow> ([], False))"

definition asBool :: "any \<Rightarrow> bool \<times> bool" where
  "asBool v = (case v of AnyBool b \<Rightarrow> (b, True) | _ \<Rightarrow> (False, False))"

text \<open>The loop over \<open>arr\<close> in \<open>parseFlags\<close>: the entries that are strings.\<close>

fun allowedStrings :: "any list \<Rightarrow> string list" where
  "allowedStrings [] = []"
| "allowedStrings (a # arr) =
     (case a of AnyString s \<Rightarrow> s # allowedStrings arr | _ \<Rightarrow> allowedStrings arr)"

fun parseFlagsLoop :: "any list \<Rightarrow> Flag list" where
  "parseFlagsLoop [] = []"
| "parseFlagsLoop (raw # list) =
     (case raw of
        AnyMap m \<Rightarrow>
          Flag (fst (asString (index m ''long''))) (fst (asString (index m ''short'')))
               (fst (asBool (index m ''required'')))
               (case map_of m ''allowed'' of
                  Some (AnyList arr) \<Rightarrow> allowedStrings arr
                | _ \<Rightarrow> [])
               (fst (asBool (index m ''private'')))
          # parseFlagsLoop list
      | _ \<Rightarrow> parseFlagsLoop list)"

definition parseFlags :: "any \<Rightarrow> Flag list" where
  "parseFlags v = (case v of AnyList list \<Rightarrow> parseFlagsLoop list | _ \<Rightarrow> [])"

fun parseArgsLoop :: "any list \<Rightarrow> Arg list" where
  "parseArgsLoop [] = []"
| "parseArgsLoop (raw # list) =
     (case raw of
        AnyMap m \<Rightarrow>
          (let name = fst (asString (index m ''name''))
           in if name = [] then parseArgsLoop list
              else Arg name (fst (asBool (index m ''required''))) # parseArgsLoop list)
      | _ \<Rightarrow> parseArgsLoop list)"

definition parseArgs :: "any \<Rightarrow> Arg list" where
  "parseArgs v = (case v of AnyList list \<Rightarrow> parseArgsLoop list | _ \<Rightarrow> [])"

fun parseEnvVarsLoop :: "any list \<Rightarrow> EnvVar list" where
  "parseEnvVarsLoop [] = []"
| "parseEnvVarsLoop (raw # list) =
     (case raw of
        AnyMap m \<Rightarrow>
          (let name = fst (asString (index m ''name''))
           in if name = [] then parseEnvVarsLoop list
              else EnvVar name (fst (asBool (index m ''private''))) # parseEnvVarsLoop list)
      | _ \<Rightarrow> parseEnvVarsLoop list)"

definition parseEnvVars :: "any \<Rightarrow> EnvVar list" where
  "parseEnvVars v = (case v of AnyList list \<Rightarrow> parseEnvVarsLoop list | _ \<Rightarrow> [])"

text \<open>\<open>DeepCommands\<close>: the nodes of the tree, depth first.\<close>

function deepCommandsFrom :: "Command \<Rightarrow> Command list" where
  "deepCommandsFrom c = c # concat (map deepCommandsFrom (Commands c))"
  by pat_completeness auto
termination
proof (relation "measure size")
  show "wf (measure size)" by simp
next
  fix c x :: Command
  assume x: "x \<in> set (Commands c)"
  have "size x \<le> size_list size (Commands c)"
    using x by (induction "Commands c" arbitrary: c) (auto simp: size_list_estimation')
  moreover have "size_list size (Commands c) < size c"
    by (cases c) simp
  ultimately show "(x, c) \<in> measure size" by simp
qed

declare deepCommandsFrom.simps [simp del]

definition DeepCommands :: "Command \<Rightarrow> bool \<Rightarrow> Command list" where
  "DeepCommands root includeSelf =
     (if includeSelf then [root] else []) @ concat (map deepCommandsFrom (Commands root))"

text \<open>
  The functions of the Go library whose result only the file name of a command
  depends on are parameters of the model: \<open>filepath.Join\<close> (of two elements),
  \<open>filepath.FromSlash\<close>, \<open>strings.ToLower\<close> and \<open>strings.TrimSpace\<close>.
\<close>

record Stdlib =
  filepath_Join :: "string \<Rightarrow> string \<Rightarrow> string"
  filepath_FromSlash :: "string \<Rightarrow> string"
  strings_ToLower :: "string \<Rightarrow> string"
  strings_TrimSpace :: "string \<Rightarrow> string"

text \<open>
  An instance of these parameters, for the examples: path elements are joined by a
  slash, and the other three functions leave their argument as it is (as the library
  functions do on a lower-case name without spaces or backslashes).
\<close>

definition exampleLib :: Stdlib where
  "exampleLib =
     \<lparr>filepath_Join = (\<lambda>dir p. dir @ ''/'' @ p), filepath_FromSlash = (\<lambda>s. s),
      strings_ToLower = (\<lambda>s. s), strings_TrimSpace = (\<lambda>s. s)\<rparr>"

definition computeActionName :: "string list \<Rightarrow> string \<Rightarrow> string" where
  "computeActionName parents name =
     (if length parents = 0 then ''root''
      else if length parents = 1 then name
      else Join (drop 1 parents @ [name]) '' '')"

text \<open>The loop of \<open>normalizeAlias\<close> over a list: the entries that are non-empty strings.\<close>

fun aliasStrings :: "any list \<Rightarrow> string list" where
  "aliasStrings [] = []"
| "aliasStrings (a # t) =
     (case a of
        AnyString s \<Rightarrow> if s \<noteq> [] then s # aliasStrings t else aliasStrings t
      | _ \<Rightarrow> aliasStrings t)"

definition normalizeAlias :: "any \<Rightarrow> string \<Rightarrow> string list" where
  "normalizeAlias v name =
     (let alts = (case v of
                    AnyNil \<Rightarrow> []
                  | AnyString t \<Rightarrow> if t \<noteq> [] then [t] else []
                  | AnyList t \<Rightarrow> aliasStrings t
                  | _ \<Rightarrow> [])
      in name # alts)"

definition underscore :: "Stdlib \<Rightarrow> string \<Rightarrow> string" where
  "underscore lib s =
     strings_ToLower lib
       (ReplaceAll_byte (ReplaceAll_byte (strings_TrimSpace lib s) CHR ''-'' CHR ''_'')
          CHR ''/'' CHR ''_'')"

definition resolveFilename ::
  "Stdlib \<Rightarrow> (string \<times> any) list \<Rightarrow> string list \<Rightarrow> string \<Rightarrow> Settings \<Rightarrow> string" where
  "resolveFilename lib opts parents name st =
     (case asString (index opts ''filename'') of
        (s, ok) \<Rightarrow>
          if ok \<and> s \<noteq> [] then s
          else
            (let action = computeActionName parents name;
                 ext = (if PartialsExtension st = [] then ''sh'' else PartialsExtension st)
             in if CommandsDir st \<noteq> []
                then filepath_Join lib (CommandsDir st)
                       (filepath_FromSlash lib (ReplaceAll_byte action CHR '' '' CHR ''/'')
                        @ ''.'' @ ext)
                else underscore lib (ReplaceAll_byte action CHR '' '' CHR ''_'')
                     @ ''_command.'' @ ext))"

text \<open>
  The errors of the builder, with the values their messages are formatted from:
  \<open>config.commands must be a list\<close>, \<open>commands[i] must be a mapping\<close>,
  \<open>commands[i].name is required\<close> and \<open><full name>.commands must be a list\<close>.
\<close>

datatype build_error =
    ConfigCommandsNotList
  | CommandNotMapping nat
  | CommandNameRequired nat
  | SubCommandsNotList string

text \<open>\<open>%d\<close> of \<open>fmt.Errorf\<close>, for an index (which is never negative).\<close>

function itoa :: "nat \<Rightarrow> string" where
  "itoa n = (if n < 10 then [char_of (48 + n)]
             else itoa (n div 10) @ [char_of (48 + n mod 10)])"
  by pat_completeness auto
termination
  by (relation "measure (\<lambda>n. n)") auto

text \<open>The message of an error of the builder (\<open>err.Error()\<close>).\<close>

definition errorString :: "build_error \<Rightarrow> string" where
  "errorString e =
     (case e of
        ConfigCommandsNotList \<Rightarrow> ''config.commands must be a list''
      | CommandNotMapping i \<Rightarrow> ''commands['' @ itoa i @ ''] must be a mapping''
      | CommandNameRequired i \<Rightarrow> ''commands['' @ itoa i @ ''].name is required''
      | SubCommandsNotList fullName \<Rightarrow> fullName @ ''.commands must be a list'')"

text \<open>\<open>cmd.Commands = children\<close>\<close>

definition withCommands :: "Command \<Rightarrow> Command list \<Rightarrow> Command" where
  "withCommands c children =
     Command (Command.Name c) (Parents c) (FullName c) (ActionName c) (Command.Private c)
       (Expose c) (Alias c) (Filename c) (Description c) (Args c) (Command.Flags c)
       (EnvVars c) children"

text \<open>The node \<open>buildChildren\<close> makes of one entry, before its own children are built.\<close>

definition newChild ::
  "Stdlib \<Rightarrow> (string \<times> any) list \<Rightarrow> string \<Rightarrow> Command \<Rightarrow> Settings \<Rightarrow> Command" where
  "newChild lib opts name parent st =
     (let parents = Parents parent @ [Command.Name parent]
      in Command name parents (Join (parents @ [name]) '' '') (computeActionName parents name)
           (fst (asBool (index opts ''private''))) (fst (asString (index opts ''expose'')))
           (normalizeAlias (index opts ''alias'') name)
           (resolveFilename lib opts parents name st)
           (fst (asString (index opts ''description'')))
           (parseArgs (index opts ''args'')) (parseFlags (index opts ''flags''))
           (parseEnvVars (index opts ''environment_variables'')) [])"

text \<open>
  \<open>buildChildren\<close>: the loop over \<open>list\<close> from index \<open>i\<close>, as a recursion on the entries
  from \<open>i\<close> on; each \<open>return nil, err\<close> is an \<open>Inl\<close>.
\<close>

function buildChildren ::
  "Stdlib \<Rightarrow> any list \<Rightarrow> nat \<Rightarrow> Command \<Rightarrow> Settings \<Rightarrow> build_error + Command list" where
  "buildChildren lib [] i parent st = Inr []"
| "buildChildren lib (raw # list) i parent st =
     (case raw of
        AnyMap opts \<Rightarrow>
          (let name = fst (asString (index opts ''name''))
           in if name = [] then Inl (CommandNameRequired i)
              else
                (let cmd = newChild lib opts name parent st
                 in case map_of opts ''commands'' of
                      None \<Rightarrow>
                        (case buildChildren lib list (Suc i) parent st of
                           Inl err \<Rightarrow> Inl err
                         | Inr out \<Rightarrow> Inr (cmd # out))
                    | Some sub \<Rightarrow>
                        (case sub of
                           AnyList subList \<Rightarrow>
                             (case buildChildren lib subList 0 cmd st of
                                Inl err \<Rightarrow> Inl err
                              | Inr children \<Rightarrow>
                                  (case buildChildren lib list (Suc i) parent st of
                                     Inl err \<Rightarrow> Inl err
                                   | Inr out \<Rightarrow> Inr (withCommands cmd children # out)))
                         | _ \<Rightarrow> Inl (SubCommandsNotList (FullName cmd)))))
      | _ \<Rightarrow> Inl (CommandNotMapping i))"
  by pat_completeness auto
termination
proof (relation "measure (\<lambda>(lib, list, i, parent, st). size_list size list)")
  show "wf (measure (\<lambda>(lib, list, i, parent, st). size_list size list))" by simp
next
  fix lib :: Stdlib and raw :: any and list :: "any list" and i :: nat
    and parent :: Command and st :: Settings
  show "((lib, list, Suc i, parent, st), lib, raw # list, i, parent, st)
        \<in> measure (\<lambda>(lib, list, i, parent, st). size_list size list)"
    by simp
  then show "((lib, list, Suc i, parent, st), lib, raw # list, i, parent, st)
        \<in> measure (\<lambda>(lib, list, i, parent, st). size_list size list)" .
next
  fix lib :: Stdlib and raw :: any and list subList :: "any list" and i :: nat
    and parent cmd :: Command and st :: Settings and opts :: "(string \<times> any) list"
    and sub :: any
  assume raw: "raw = AnyMap opts" and sub: "map_of opts ''commands'' = Some sub"
    and subList: "sub = AnyList subList"
  have "size v \<le> size_list (size_prod (\<lambda>_. 0) size) m" if "map_of m k = Some v"
    for m :: "(string \<times> any) list" and k v
    using that by (induction m) (auto split: if_splits)
  from this [OF sub] have "size sub < size raw" by (simp add: raw)
  then show "((lib, subList, 0, cmd, st), lib, raw # list, i, parent, st)
        \<in> measure (\<lambda>(lib, list, i, parent, st). size_list size list)"
    by (simp add: subList)
qed

text \<open>The root node \<open>BuildFromConfigMap\<close> makes, before the children are built.\<close>

definition newRoot :: "Stdlib \<Rightarrow> (string \<times> any) list \<Rightarrow> Settings \<Rightarrow> Command" where
  "newRoot lib cfg st =
     (let name0 = fst (asString (index cfg ''name''));
          name = (if name0 = [] then ''root'' else name0);
          ext = (if PartialsExtension st = [] then ''sh'' else PartialsExtension st);
          filename = (if CommandsDir st \<noteq> []
                      then filepath_Join lib (CommandsDir st) (''root.'' @ ext)
                      else ''root_command.'' @ ext)
      in Command name [] name ''root'' False [] [] filename
           (fst (asString (index cfg ''description'')))
           (parseArgs (index cfg ''args'')) (parseFlags (index cfg ''flags''))
           (parseEnvVars (index cfg ''environment_variables'')) [])"

definition BuildFromConfigMap ::
  "Stdlib \<Rightarrow> (string \<times> any) list \<Rightarrow> Settings \<Rightarrow> build_error + Command" where
  "BuildFromConfigMap lib cfg st =
     (let root = newRoot lib cfg st
      in case map_of cfg ''commands'' of
           None \<Rightarrow> Inr root
         | Some cmds \<Rightarrow>
             (case cmds of
                AnyList list \<Rightarrow>
                  (case buildChildren lib list 0 root st of
                     Inl err \<Rightarrow> Inl err
                   | Inr children \<Rightarrow> Inr (withCommands root children))
              | _ \<Rightarrow> Inl ConfigCommandsNotList))"

section \<open>Configurations with a structural defect, in the words of the specification\<close>

text \<open>
  An entry of a \<open>commands\<close> list lacks a non-empty \<open>name\<close> when the key is absent or its
  value is not a string or is the empty string.
\<close>

definition lacksName :: "(string \<times> any) list \<Rightarrow> bool" where
  "lacksName opts =
     (case map_of opts ''name'' of Some (AnyString s) \<Rightarrow> s = [] | _ \<Rightarrow> True)"

text \<open>
  A \<open>commands\<close> list has a structural defect when, at any nesting level, an entry is not
  a mapping, or lacks a non-empty \<open>name\<close>, or has a \<open>commands\<close> value that is not a list.
\<close>

function defectiveEntries :: "any list \<Rightarrow> bool" where
  "defectiveEntries [] = False"
| "defectiveEntries (raw # list) =
     ((case raw of
         AnyMap opts \<Rightarrow>
           lacksName opts
           \<or> (case map_of opts ''commands'' of
                 None \<Rightarrow> False
               | Some (AnyList sub) \<Rightarrow> defectiveEntries sub
               | Some _ \<Rightarrow> True)
       | _ \<Rightarrow> True)
      \<or> defectiveEntries list)"
  by pat_completeness auto
termination
proof (relation "measure (size_list size)")
  show "wf (measure (size_list size))" by simp
next
  fix raw :: any and list :: "any list"
  show "(list, raw # list) \<in> measure (size_list size)" by simp
next
  fix raw :: any and list sub :: "any list" and opts :: "(string \<times> any) list" and v :: any
  assume raw: "raw = AnyMap opts" and v: "map_of opts ''commands'' = Some v"
    and sub: "v = AnyList sub"
  have "size w \<le> size_list (size_prod (\<lambda>_. 0) size) m" if "map_of m k = Some w"
    for m :: "(string \<times> any) list" and k w
    using that by (induction m) (auto split: if_splits)
  from this [OF v] have "size v < size raw" by (simp add: raw)
  then show "(sub, raw # list) \<in> measure (size_list size)"
    by (simp add: sub)
qed

definition defectiveConfig :: "(string \<times> any) list \<Rightarrow> bool" where
  "defectiveConfig cfg =
     (case map_of cfg ''commands'' of
        None \<Rightarrow> False
      | Some (AnyList list) \<Rightarrow> defectiveEntries list
      | Some _ \<Rightarrow> True)"

text \<open>A declaration entry is kept by \<open>parseFlags\<close> when it is a mapping.\<close>

definition isMapping :: "any \<Rightarrow> bool" where
  "isMapping raw = (case raw of AnyMap m \<Rightarrow> True | _ \<Rightarrow> False)"

text \<open>
  It is kept by \<open>parseArgs\<close> and \<open>parseEnvVars\<close> when it is a mapping with a non-empty
  \<open>name\<close>.
\<close>

definition isNamedMapping :: "any \<Rightarrow> bool" where
  "isNamedMapping raw = (case raw of AnyMap m \<Rightarrow> \<not> lacksName m | _ \<Rightarrow> False)"

text \<open>
  The invariant of the builder, for the proofs: a node below the parent chain \<open>ps\<close> has
  \<open>ps\<close> as its parents and the action name computed from them, and so have its children
  below \<open>ps\<close> extended by its name.
\<close>

inductive chained :: "string list \<Rightarrow> Command \<Rightarrow> bool" where
  "Parents c = ps \<Longrightarrow> ActionName c = computeActionName ps (Command.Name c) \<Longrightarrow>
   (\<forall>ch \<in> set (Commands c). chained (ps @ [Command.Name c]) ch) \<Longrightarrow> chained ps c"

section \<open>The argument resolver (package runtime)\<close>

text \<open>
  \<open>Command\<close> is a pointer in the code and may be nil, hence the option. \<open>Flags\<close> is a Go
  map: reading a key that is absent gives the empty string (\<open>lookup\<close>).
\<close>

record ParsedArgs =
  Command :: "Command option"
  Flags :: "string \<rightharpoonup> string"
  Positional :: "string list"
  Remaining :: "string list"
  HelpAsked :: bool

definition lookup :: "(string \<rightharpoonup> string) \<Rightarrow> string \<Rightarrow> string" where
  "lookup m k = (case m k of None \<Rightarrow> [] | Some v \<Rightarrow> v)"

datatype resolve_error = UnknownCommand | NilPointerDereference

text \<open>The inner loop of \<open>findChild\<close>, over the aliases of one child: does it return the child?\<close>

fun aliasMatch :: "string list \<Rightarrow> string \<Rightarrow> bool" where
  "aliasMatch [] name = False"
| "aliasMatch (alias # rest) name =
     (if HasPrefix alias ''*'' then
        (if HasPrefix name (TrimSuffix alias ''*'') then True else aliasMatch rest name)
      else if alias = name then True
      else aliasMatch rest name)"

text \<open>The outer loop of \<open>findChild\<close>, over the children of the parent.\<close>

fun findChildIn :: "Command list \<Rightarrow> string \<Rightarrow> Command option" where
  "findChildIn [] name = None"
| "findChildIn (child # rest) name =
     (if Command.Name child = name then Some child
      else if aliasMatch (Alias child) name then Some child
      else findChildIn rest name)"

definition findChild :: "Command \<Rightarrow> string \<Rightarrow> Command option" where
  "findChild parent name = findChildIn (Commands parent) name"

text \<open>The loop of \<open>resolveCommandPath\<close>, from a node that is not nil.\<close>

fun walk :: "Command \<Rightarrow> string list \<Rightarrow> Command \<times> string list" where
  "walk current [] = (current, [])"
| "walk current (tok # rest) =
     (case findChild current tok of
        None \<Rightarrow> (current, tok # rest)
      | Some next \<Rightarrow> walk next rest)"

text \<open>
  With a nil root the loop does not run on an empty vector, and dereferences nil in
  \<open>findChild\<close> on any other.
\<close>

definition resolveCommandPath ::
  "Command option \<Rightarrow> string list \<Rightarrow> resolve_error + (Command option \<times> string list)" where
  "resolveCommandPath root argv =
     (case root of
        None \<Rightarrow> if argv = [] then Inr (None, []) else Inl NilPointerDereference
      | Some r \<Rightarrow> (case walk r argv of (current, remaining) \<Rightarrow> Inr (Some current, remaining)))"

text \<open>The body of the compact branch: one flag per rune of \<open>arg[1:]\<close>.\<close>

fun setCompact :: "(string \<rightharpoonup> string) \<Rightarrow> string list \<Rightarrow> (string \<rightharpoonup> string)" where
  "setCompact fl [] = fl"
| "setCompact fl (ch # chs) = setCompact (fl(''-'' @ ch \<mapsto> ''true'')) chs"

text \<open>
  \<open>parseFlagsAndArgs\<close>: the loop over \<open>args\<close> from index \<open>i\<close>, as a recursion on the
  tokens from \<open>i\<close> on. \<open>parts[0]\<close> and \<open>parts[1]\<close> are in range, by \<open>SplitN_2_length\<close>.
\<close>

fun parseFlagsAndArgs :: "ParsedArgs \<Rightarrow> string list \<Rightarrow> ParsedArgs" where
  "parseFlagsAndArgs p [] = p"
| "parseFlagsAndArgs p (arg # rest) =
     (if HasPrefix arg ''--'' then
        (if Contains arg ''='' then
           (let parts = SplitN_2 arg ''=''
            in parseFlagsAndArgs (p\<lparr>Flags := (ParsedArgs.Flags p)(parts ! 0 \<mapsto> parts ! 1)\<rparr>) rest)
         else
           (case rest of
              [] \<Rightarrow> parseFlagsAndArgs (p\<lparr>Flags := (ParsedArgs.Flags p)(arg \<mapsto> ''true'')\<rparr>) rest
            | nxt # rest' \<Rightarrow>
                if \<not> HasPrefix nxt ''-''
                then parseFlagsAndArgs (p\<lparr>Flags := (ParsedArgs.Flags p)(arg \<mapsto> nxt)\<rparr>) rest'
                else parseFlagsAndArgs (p\<lparr>Flags := (ParsedArgs.Flags p)(arg \<mapsto> ''true'')\<rparr>) rest))
      else if HasPrefix arg ''-'' \<and> 1 < length arg then
        (if length arg = 2 then
           (case rest of
              [] \<Rightarrow> parseFlagsAndArgs (p\<lparr>Flags := (ParsedArgs.Flags p)(arg \<mapsto> ''true'')\<rparr>) rest
            | nxt # rest' \<Rightarrow>
                if \<not> HasPrefix nxt ''-''
                then parseFlagsAndArgs (p\<lparr>Flags := (ParsedArgs.Flags p)(arg \<mapsto> nxt)\<rparr>) rest'
                else parseFlagsAndArgs (p\<lparr>Flags := (ParsedArgs.Flags p)(arg \<mapsto> ''true'')\<rparr>) rest)
         else
           parseFlagsAndArgs
             (p\<lparr>Flags := setCompact (ParsedArgs.Flags p) (runes (drop 1 arg))\<rparr>) rest)
      else parseFlagsAndArgs (p\<lparr>Positional := Positional p @ [arg]\<rparr>) rest)"

definition ParseArgs ::
  "string list \<Rightarrow> Command option \<Rightarrow> Settings \<Rightarrow> resolve_error + ParsedArgs" where
  "ParseArgs argv root st =
     (let p = \<lparr>Command = None, Flags = Map.empty, Positional = [], Remaining = [],
               HelpAsked = False\<rparr>
      in if contains argv ''--help'' \<or> contains argv ''-h''
         then Inr (p\<lparr>HelpAsked := True, Command := root\<rparr>)
         else (case resolveCommandPath root argv of
                 Inl e \<Rightarrow> Inl e
               | Inr (cmd, remaining) \<Rightarrow>
                   if cmd = None then Inl UnknownCommand
                   else Inr (parseFlagsAndArgs (p\<lparr>Command := cmd, Remaining := remaining\<rparr>)
                               remaining)))"

section \<open>The validator (package runtime)\<close>

record ValidateResult =
  Valid :: bool
  ErrorMsg :: string
  ExitCode :: int

text \<open>
  \<open>value := parsed.Flags[flag.Long]; if value == "" { value = parsed.Flags[flag.Short] }\<close>
\<close>

definition flagValue :: "ParsedArgs \<Rightarrow> Flag \<Rightarrow> string" where
  "flagValue parsed flag =
     (let v = lookup (ParsedArgs.Flags parsed) (Long flag)
      in if v = [] then lookup (ParsedArgs.Flags parsed) (Short flag) else v)"

text \<open>\<open>name := flag.Long; if name == "" { name = flag.Short }\<close>\<close>

definition flagName :: "Flag \<Rightarrow> string" where
  "flagName flag = (if Long flag = [] then Short flag else Long flag)"

text \<open>The three loops of \<open>ValidateParsed\<close>; \<open>Some\<close> is the early return.\<close>

fun checkRequiredArgs :: "Arg list \<Rightarrow> ParsedArgs \<Rightarrow> ValidateResult option" where
  "checkRequiredArgs [] parsed = None"
| "checkRequiredArgs (arg # rest) parsed =
     (if Arg.Required arg \<and> \<not> contains (Positional parsed) (Arg.Name arg)
      then Some \<lparr>Valid = False, ErrorMsg = ''missing required argument: '' @ Arg.Name arg,
                 ExitCode = 2\<rparr>
      else checkRequiredArgs rest parsed)"

fun checkRequiredFlags :: "Flag list \<Rightarrow> ParsedArgs \<Rightarrow> ValidateResult option" where
  "checkRequiredFlags [] parsed = None"
| "checkRequiredFlags (flag # rest) parsed =
     (if Flag.Required flag \<and> flagValue parsed flag = []
      then Some \<lparr>Valid = False, ErrorMsg = ''missing required flag: '' @ flagName flag,
                 ExitCode = 2\<rparr>
      else checkRequiredFlags rest parsed)"

fun checkAllowedValues :: "Flag list \<Rightarrow> ParsedArgs \<Rightarrow> ValidateResult option" where
  "checkAllowedValues [] parsed = None"
| "checkAllowedValues (flag # rest) parsed =
     (if flagValue parsed flag \<noteq> [] \<and> 0 < length (Allowed flag)
           \<and> \<not> contains (Allowed flag) (flagValue parsed flag)
      then Some \<lparr>Valid = False,
                 ErrorMsg = ''invalid value for '' @ flagName flag @ '': '' @ flagValue parsed flag,
                 ExitCode = 2\<rparr>
      else checkAllowedValues rest parsed)"

definition ValidateParsed :: "Command \<Rightarrow> ParsedArgs \<Rightarrow> ValidateResult" where
  "ValidateParsed cmd parsed =
     (case checkRequiredArgs (Args cmd) parsed of
        Some r \<Rightarrow> r
      | None \<Rightarrow>
          (case checkRequiredFlags (Command.Flags cmd) parsed of
             Some r \<Rightarrow> r
           | None \<Rightarrow>
               (case checkAllowedValues (Command.Flags cmd) parsed of
                  Some r \<Rightarrow> r
                | None \<Rightarrow> \<lparr>Valid = True, ErrorMsg = '''', ExitCode = 0\<rparr>)))"

section \<open>Facts about the library functions and the tokenizer\<close>

lemma contains_iff: "contains slice item \<longleftrightarrow> item \<in> set slice"
  by (induction slice) auto

lemma HasPrefix_char: "HasPrefix s [c] \<longleftrightarrow> (\<exists>t. s = c # t)"
  by (cases s) (auto simp: HasPrefix_def)

lemma Index_char:
  "Index s [c] = (if c \<in> set s then Some (length (takeWhile (\<lambda>x. x \<noteq> c) s)) else None)"
  by (induction s) (auto simp: HasPrefix_char)

lemma Contains_char: "Contains s [c] \<longleftrightarrow> c \<in> set s"
  by (simp add: Contains_def Index_char)

lemma SplitN_2_char:
  "c \<in> set s \<Longrightarrow>
   SplitN_2 s [c] = [takeWhile (\<lambda>x. x \<noteq> c) s, drop 1 (dropWhile (\<lambda>x. x \<noteq> c) s)]"
  by (simp add: SplitN_2_def Index_char dropWhile_eq_drop takeWhile_eq_take [symmetric])

lemma SplitN_2_length: "Contains s sep \<Longrightarrow> length (SplitN_2 s sep) = 2"
  by (auto simp: Contains_def SplitN_2_def)

lemma split_first_char:
  assumes "c \<in> set s"
  shows "s = takeWhile (\<lambda>x. x \<noteq> c) s @ [c] @ drop 1 (dropWhile (\<lambda>x. x \<noteq> c) s)"
    and "c \<notin> set (takeWhile (\<lambda>x. x \<noteq> c) s)"
proof -
  from assms have "dropWhile (\<lambda>x. x \<noteq> c) s \<noteq> []" by simp
  moreover have "hd (dropWhile (\<lambda>x. x \<noteq> c) s) = c"
    using assms hd_dropWhile [of "\<lambda>x. x \<noteq> c" s] by simp
  ultimately have "dropWhile (\<lambda>x. x \<noteq> c) s = c # drop 1 (dropWhile (\<lambda>x. x \<noteq> c) s)"
    by (cases "dropWhile (\<lambda>x. x \<noteq> c) s") auto
  then have "takeWhile (\<lambda>x. x \<noteq> c) s @ [c] @ drop 1 (dropWhile (\<lambda>x. x \<noteq> c) s)
             = takeWhile (\<lambda>x. x \<noteq> c) s @ dropWhile (\<lambda>x. x \<noteq> c) s"
    by simp
  then show "s = takeWhile (\<lambda>x. x \<noteq> c) s @ [c] @ drop 1 (dropWhile (\<lambda>x. x \<noteq> c) s)"
    by simp
  show "c \<notin> set (takeWhile (\<lambda>x. x \<noteq> c) s)"
    by (auto dest: set_takeWhileD)
qed

lemma setCompact_eq:
  "setCompact fl chs = (\<lambda>k. if k \<in> (\<lambda>ch. ''-'' @ ch) ` set chs then Some ''true'' else fl k)"
  by (induction chs arbitrary: fl) (auto simp: fun_eq_iff)

lemma runes_ascii:
  "\<forall>c \<in> set s. of_char c < (128::nat) \<Longrightarrow> runes s = map (\<lambda>c. [c]) s"
  by (induction s) (auto simp: decodeRune_def inRange_def)

text \<open>The branches of one step of the tokenizer.\<close>

lemma parse_long_eq:
  "HasPrefix arg ''--'' \<Longrightarrow> CHR ''='' \<in> set arg \<Longrightarrow>
   parseFlagsAndArgs p (arg # rest) =
     parseFlagsAndArgs
       (p\<lparr>Flags := (ParsedArgs.Flags p)
            (takeWhile (\<lambda>x. x \<noteq> CHR ''='') arg \<mapsto> drop 1 (dropWhile (\<lambda>x. x \<noteq> CHR ''='') arg))\<rparr>)
       rest"
  by (simp add: Contains_char SplitN_2_char)

lemma parse_long_value:
  "HasPrefix arg ''--'' \<Longrightarrow> CHR ''='' \<notin> set arg \<Longrightarrow> \<not> HasPrefix nxt ''-'' \<Longrightarrow>
   parseFlagsAndArgs p (arg # nxt # rest) =
     parseFlagsAndArgs (p\<lparr>Flags := (ParsedArgs.Flags p)(arg \<mapsto> nxt)\<rparr>) rest"
  by (simp add: Contains_char)

lemma parse_long_true:
  "HasPrefix arg ''--'' \<Longrightarrow> CHR ''='' \<notin> set arg \<Longrightarrow>
   rest = [] \<or> HasPrefix (hd rest) ''-'' \<Longrightarrow>
   parseFlagsAndArgs p (arg # rest) =
     parseFlagsAndArgs (p\<lparr>Flags := (ParsedArgs.Flags p)(arg \<mapsto> ''true'')\<rparr>) rest"
  by (cases rest) (simp_all add: Contains_char)

lemma parse_compact:
  "HasPrefix arg ''-'' \<Longrightarrow> \<not> HasPrefix arg ''--'' \<Longrightarrow> 2 < length arg \<Longrightarrow>
   parseFlagsAndArgs p (arg # rest) =
     parseFlagsAndArgs
       (p\<lparr>Flags := (\<lambda>k. if k \<in> (\<lambda>ch. ''-'' @ ch) ` set (runes (drop 1 arg))
                         then Some ''true'' else ParsedArgs.Flags p k)\<rparr>) rest"
  by (simp add: setCompact_eq)

lemma parse_invariant:
  assumes set_flag: "\<And>p a b. Q p \<Longrightarrow> Q (p\<lparr>Flags := (ParsedArgs.Flags p)(a \<mapsto> b)\<rparr>)"
    and set_compact: "\<And>p chs. Q p \<Longrightarrow> Q (p\<lparr>Flags := setCompact (ParsedArgs.Flags p) chs\<rparr>)"
    and add_positional: "\<And>p x. Q p \<Longrightarrow> Q (p\<lparr>Positional := Positional p @ [x]\<rparr>)"
  shows "Q p \<Longrightarrow> Q (parseFlagsAndArgs p args)"
proof (induction p args rule: parseFlagsAndArgs.induct)
  case (1 p)
  then show ?case by simp
next
  case (2 p arg rest)
  have upd: "Q (p\<lparr>Flags := (ParsedArgs.Flags p)(a \<mapsto> b)\<rparr>)" for a b
    using "2.prems" by (rule set_flag)
  have cmp: "Q (p\<lparr>Flags := setCompact (ParsedArgs.Flags p) chs\<rparr>)" for chs
    using "2.prems" by (rule set_compact)
  have pos: "Q (p\<lparr>Positional := Positional p @ [arg]\<rparr>)"
    using "2.prems" by (rule add_positional)
  show ?case
  proof (cases "HasPrefix arg ''--''")
    case long: True
    show ?thesis
    proof (cases "Contains arg ''=''")
      case True
      from "2.IH"(1) [OF long True refl upd] show ?thesis
        using long True by (simp add: Let_def)
    next
      case False
      show ?thesis
      proof (cases rest)
        case Nil
        from "2.IH"(2) [OF long False Nil upd] show ?thesis
          using long False Nil by simp
      next
        case (Cons nxt rest')
        show ?thesis
        proof (cases "HasPrefix nxt ''-''")
          case True
          then have "\<not> \<not> HasPrefix nxt ''-''" by simp
          from "2.IH"(4) [OF long False Cons this upd] show ?thesis
            using long False Cons True by simp
        next
          case no: False
          from "2.IH"(3) [OF long False Cons no upd] show ?thesis
            using long False Cons no by simp
        qed
      qed
    qed
  next
    case nolong: False
    show ?thesis
    proof (cases "HasPrefix arg ''-'' \<and> 1 < length arg")
      case short: True
      show ?thesis
      proof (cases "length arg = 2")
        case two: True
        show ?thesis
        proof (cases rest)
          case Nil
          from "2.IH"(5) [OF nolong short two Nil upd] show ?thesis
            using nolong short two Nil by simp
        next
          case (Cons nxt rest')
          show ?thesis
          proof (cases "HasPrefix nxt ''-''")
            case True
            then have "\<not> \<not> HasPrefix nxt ''-''" by simp
            from "2.IH"(7) [OF nolong short two Cons this upd] show ?thesis
              using nolong short two Cons True by simp
          next
            case no: False
            from "2.IH"(6) [OF nolong short two Cons no upd] show ?thesis
              using nolong short two Cons no by simp
          qed
        qed
      next
        case False
        from "2.IH"(8) [OF nolong short False cmp] show ?thesis
          using nolong short False by simp
      qed
    next
      case False
      from "2.IH"(9) [OF nolong False pos] show ?thesis
        using nolong False by auto
    qed
  qed
qed

lemma dom_parse_mono:
  "k \<in> dom (ParsedArgs.Flags p) \<Longrightarrow> k \<in> dom (ParsedArgs.Flags (parseFlagsAndArgs p args))"
  by (rule parse_invariant [where Q = "\<lambda>q. k \<in> dom (ParsedArgs.Flags q)"])
     (auto simp: setCompact_eq)

lemma parseFlagsAndArgs_Command:
  "ParsedArgs.Command (parseFlagsAndArgs p args) = ParsedArgs.Command p"
  by (rule parse_invariant
        [where Q = "\<lambda>q. ParsedArgs.Command q = ParsedArgs.Command p" and p = p])
     simp_all

lemma aliasMatch_iff:
  "aliasMatch aliases name \<longleftrightarrow>
     (\<exists>a \<in> set aliases.
        if HasPrefix a ''*'' then HasPrefix name (TrimSuffix a ''*'') else a = name)"
  by (induction aliases) auto

section \<open>Command-path resolution\<close>

text \<open>
  C1 (fails on the code). The claim: a child with aliases \<open>["full", "f*"]\<close> matches the
  token \<open>"foo"\<close> by the prefix rule of the alias \<open>"f*"\<close>. \<open>findChild\<close> takes the wildcard
  branch for an alias that \<^emph>\<open>starts\<close> with \<open>*\<close> (\<open>strings.HasPrefix(alias, "*")\<close>), so the
  alias \<open>"f*"\<close> is compared for equality: the token \<open>"foo"\<close> finds no child, while the
  tokens \<open>"full"\<close> (the name) and \<open>"f*"\<close> (the alias, literally) find it.
\<close>

theorem findChild_trailing_star_alias:
  "findChild
     (Command.Command ''cli'' [] ''cli'' ''root'' False [] [] ''root_command.sh'' [] [] [] []
        [Command.Command ''full'' [''cli''] ''full'' ''full'' False [] [''full'', ''f*'']
           ''full_command.sh'' [] [] [] [] []])
     ''foo'' = None
   \<and> findChild
     (Command.Command ''cli'' [] ''cli'' ''root'' False [] [] ''root_command.sh'' [] [] [] []
        [Command.Command ''full'' [''cli''] ''full'' ''full'' False [] [''full'', ''f*'']
           ''full_command.sh'' [] [] [] [] []])
     ''full'' =
       Some (Command.Command ''full'' [''cli''] ''full'' ''full'' False [] [''full'', ''f*'']
           ''full_command.sh'' [] [] [] [] [])
   \<and> findChild
     (Command.Command ''cli'' [] ''cli'' ''root'' False [] [] ''root_command.sh'' [] [] [] []
        [Command.Command ''full'' [''cli''] ''full'' ''full'' False [] [''full'', ''f*'']
           ''full_command.sh'' [] [] [] [] []])
     ''f*'' =
       Some (Command.Command ''full'' [''cli''] ''full'' ''full'' False [] [''full'', ''f*'']
           ''full_command.sh'' [] [] [] [] [])"
  by (simp add: findChild_def HasPrefix_def)

text \<open>
  C3. If \<open>--help\<close> or \<open>-h\<close> occurs anywhere in the argument vector, then for every root
  (nil or not) and all settings the resolver returns, without error, the result whose
  command is the root, whose \<open>HelpAsked\<close> is true, and whose flag map, positional list
  and remaining list are empty: no token is parsed.
\<close>

theorem ParseArgs_help:
  "''--help'' \<in> set argv \<or> ''-h'' \<in> set argv \<Longrightarrow>
   ParseArgs argv root st =
     Inr \<lparr>Command = root, Flags = Map.empty, Positional = [], Remaining = [],
          HelpAsked = True\<rparr>"
  by (simp add: ParseArgs_def contains_iff)

theorem ParseArgs_help_witness:
  "(''--help'' \<in> set [''build'', ''--out=x'', ''-h'', ''y'']
      \<or> ''-h'' \<in> set [''build'', ''--out=x'', ''-h'', ''y''])
   \<and> ParseArgs [''build'', ''--out=x'', ''-h'', ''y''] None Default =
       Inr \<lparr>Command = None, Flags = Map.empty, Positional = [], Remaining = [],
            HelpAsked = True\<rparr>"
  using ParseArgs_help [of "[''build'', ''--out=x'', ''-h'', ''y'']" None Default] by simp

text \<open>
  C9. For a root that is not nil and an argument vector without \<open>--help\<close> and \<open>-h\<close>, the
  resolver does not return the error "unknown command": it returns a result whose
  command is not nil, namely the node where the walk from the root stops.
\<close>

theorem ParseArgs_root_fallback:
  "''--help'' \<notin> set argv \<Longrightarrow> ''-h'' \<notin> set argv \<Longrightarrow>
   ParseArgs argv (Some root) st \<noteq> Inl UnknownCommand \<and>
   (\<exists>p. ParseArgs argv (Some root) st = Inr p \<and>
        ParsedArgs.Command p = Some (fst (walk root argv)))"
  by (simp add: ParseArgs_def contains_iff resolveCommandPath_def parseFlagsAndArgs_Command
      split: prod.splits)

theorem ParseArgs_root_fallback_witness:
  "''--help'' \<notin> set [''nosuch'', ''-v''] \<and> ''-h'' \<notin> set [''nosuch'', ''-v''] \<and>
   ParseArgs [''nosuch'', ''-v'']
     (Some (Command.Command ''cli'' [] ''cli'' ''root'' False [] [] ''root_command.sh'' []
              [] [] [] [])) Default \<noteq> Inl UnknownCommand \<and>
   (\<exists>p. ParseArgs [''nosuch'', ''-v'']
          (Some (Command.Command ''cli'' [] ''cli'' ''root'' False [] [] ''root_command.sh'' []
              [] [] [] [])) Default = Inr p \<and>
        ParsedArgs.Command p =
          Some (fst (walk (Command.Command ''cli'' [] ''cli'' ''root'' False [] []
                  ''root_command.sh'' [] [] [] [] []) [''nosuch'', ''-v''])))"
  using ParseArgs_root_fallback [of "[''nosuch'', ''-v'']"
      "Command.Command ''cli'' [] ''cli'' ''root'' False [] [] ''root_command.sh'' [] [] [] [] []"
      Default]
  by simp

section \<open>Tokenizing the remaining arguments\<close>

text \<open>
  C4. One step of the tokenizer on a token \<open>arg\<close> that starts with \<open>--\<close>. If \<open>arg\<close>
  contains \<open>=\<close>, it is \<open>name = value\<close> with no \<open>=\<close> in \<open>name\<close> (the split is at the first
  \<open>=\<close>, and only there), and \<open>name\<close> is set to \<open>value\<close>; the following tokens are all
  still to be read. If \<open>arg\<close> contains no \<open>=\<close> and the next token exists and does not
  start with \<open>-\<close>, \<open>arg\<close> is set to that token, which is consumed. If \<open>arg\<close> contains no
  \<open>=\<close> and there is no next token, or it starts with \<open>-\<close>, \<open>arg\<close> is set to \<open>"true"\<close> and
  nothing is consumed. From an empty flag map, the remainders \<open>["--name=foo"]\<close> and
  \<open>["--name", "foo"]\<close> give \<open>--name = foo\<close>, and \<open>["--name", "--other"]\<close> gives
  \<open>--name = true\<close> (and \<open>--other = true\<close>).
\<close>

theorem parseFlagsAndArgs_long_flag:
  "(HasPrefix arg ''--'' \<and> CHR ''='' \<in> set arg \<longrightarrow>
      (\<exists>name val. arg = name @ ''='' @ val \<and> CHR ''='' \<notin> set name \<and>
         parseFlagsAndArgs p (arg # rest) =
           parseFlagsAndArgs (p\<lparr>Flags := (ParsedArgs.Flags p)(name \<mapsto> val)\<rparr>) rest))
   \<and> (HasPrefix arg ''--'' \<and> CHR ''='' \<notin> set arg \<and> \<not> HasPrefix nxt ''-'' \<longrightarrow>
        parseFlagsAndArgs p (arg # nxt # rest) =
          parseFlagsAndArgs (p\<lparr>Flags := (ParsedArgs.Flags p)(arg \<mapsto> nxt)\<rparr>) rest)
   \<and> (HasPrefix arg ''--'' \<and> CHR ''='' \<notin> set arg \<and> (rest = [] \<or> HasPrefix (hd rest) ''-'') \<longrightarrow>
        parseFlagsAndArgs p (arg # rest) =
          parseFlagsAndArgs (p\<lparr>Flags := (ParsedArgs.Flags p)(arg \<mapsto> ''true'')\<rparr>) rest)
   \<and> ParsedArgs.Flags (parseFlagsAndArgs (p\<lparr>Flags := Map.empty\<rparr>) [''--name=foo''])
        = [''--name'' \<mapsto> ''foo'']
   \<and> ParsedArgs.Flags (parseFlagsAndArgs (p\<lparr>Flags := Map.empty\<rparr>) [''--name'', ''foo''])
        = [''--name'' \<mapsto> ''foo'']
   \<and> ParsedArgs.Flags (parseFlagsAndArgs (p\<lparr>Flags := Map.empty\<rparr>) [''--name'', ''--other''])
        = [''--name'' \<mapsto> ''true'', ''--other'' \<mapsto> ''true'']"
proof (intro conjI impI)
  assume a: "HasPrefix arg ''--'' \<and> CHR ''='' \<in> set arg"
  let ?name = "takeWhile (\<lambda>x. x \<noteq> CHR ''='') arg"
  let ?val = "drop 1 (dropWhile (\<lambda>x. x \<noteq> CHR ''='') arg)"
  from a have "arg = ?name @ ''='' @ ?val" and "CHR ''='' \<notin> set ?name"
    using split_first_char [of "CHR ''=''" arg] by simp_all
  moreover from a have "parseFlagsAndArgs p (arg # rest) =
      parseFlagsAndArgs (p\<lparr>Flags := (ParsedArgs.Flags p)(?name \<mapsto> ?val)\<rparr>) rest"
    using parse_long_eq [of arg p rest] by blast
  ultimately show "\<exists>name val. arg = name @ ''='' @ val \<and> CHR ''='' \<notin> set name \<and>
         parseFlagsAndArgs p (arg # rest) =
           parseFlagsAndArgs (p\<lparr>Flags := (ParsedArgs.Flags p)(name \<mapsto> val)\<rparr>) rest"
    by blast
next
  assume "HasPrefix arg ''--'' \<and> CHR ''='' \<notin> set arg \<and> \<not> HasPrefix nxt ''-''"
  then show "parseFlagsAndArgs p (arg # nxt # rest) =
          parseFlagsAndArgs (p\<lparr>Flags := (ParsedArgs.Flags p)(arg \<mapsto> nxt)\<rparr>) rest"
    using parse_long_value [of arg nxt p rest] by blast
next
  assume "HasPrefix arg ''--'' \<and> CHR ''='' \<notin> set arg \<and> (rest = [] \<or> HasPrefix (hd rest) ''-'')"
  then show "parseFlagsAndArgs p (arg # rest) =
          parseFlagsAndArgs (p\<lparr>Flags := (ParsedArgs.Flags p)(arg \<mapsto> ''true'')\<rparr>) rest"
    using parse_long_true [of arg rest p] by blast
next
  have "HasPrefix ''--name=foo'' ''--''" by (simp add: HasPrefix_def)
  then show "ParsedArgs.Flags (parseFlagsAndArgs (p\<lparr>Flags := Map.empty\<rparr>) [''--name=foo''])
        = [''--name'' \<mapsto> ''foo'']"
    by (simp add: parse_long_eq del: parseFlagsAndArgs.simps(2))
next
  have "HasPrefix ''--name'' ''--''" "\<not> HasPrefix ''foo'' ''-''" by (simp_all add: HasPrefix_def)
  then show "ParsedArgs.Flags (parseFlagsAndArgs (p\<lparr>Flags := Map.empty\<rparr>) [''--name'', ''foo''])
        = [''--name'' \<mapsto> ''foo'']"
    by (simp add: parse_long_value del: parseFlagsAndArgs.simps(2))
next
  have "HasPrefix ''--name'' ''--''" "HasPrefix ''--other'' ''--''" "HasPrefix ''--other'' ''-''"
    by (simp_all add: HasPrefix_def)
  then show "ParsedArgs.Flags (parseFlagsAndArgs (p\<lparr>Flags := Map.empty\<rparr>) [''--name'', ''--other''])
        = [''--name'' \<mapsto> ''true'', ''--other'' \<mapsto> ''true'']"
    by (simp add: parse_long_true del: parseFlagsAndArgs.simps(2))
qed


theorem parseFlagsAndArgs_long_flag_witness:
  "(HasPrefix ''--name=foo'' ''--'' \<and> CHR ''='' \<in> set ''--name=foo'')
   \<and> (\<exists>name val. ''--name=foo'' = name @ ''='' @ val \<and> CHR ''='' \<notin> set name \<and>
         parseFlagsAndArgs
           \<lparr>Command = None, Flags = Map.empty, Positional = [], Remaining = [''--name=foo''],
            HelpAsked = False\<rparr> [''--name=foo''] =
         parseFlagsAndArgs
           \<lparr>Command = None, Flags = [name \<mapsto> val], Positional = [],
            Remaining = [''--name=foo''], HelpAsked = False\<rparr> [])
   \<and> (HasPrefix ''--name'' ''--'' \<and> CHR ''='' \<notin> set ''--name'' \<and> \<not> HasPrefix ''foo'' ''-'')
   \<and> parseFlagsAndArgs
         \<lparr>Command = None, Flags = Map.empty, Positional = [], Remaining = [''--name'', ''foo''],
          HelpAsked = False\<rparr> [''--name'', ''foo''] =
       \<lparr>Command = None, Flags = [''--name'' \<mapsto> ''foo''], Positional = [],
        Remaining = [''--name'', ''foo''], HelpAsked = False\<rparr>
   \<and> (HasPrefix ''--name'' ''--'' \<and> CHR ''='' \<notin> set ''--name''
        \<and> ([''--other''] = [] \<or> HasPrefix (hd [''--other'']) ''-''))
   \<and> parseFlagsAndArgs
         \<lparr>Command = None, Flags = Map.empty, Positional = [], Remaining = [''--name'', ''--other''],
          HelpAsked = False\<rparr> [''--name'', ''--other''] =
       parseFlagsAndArgs
         \<lparr>Command = None, Flags = [''--name'' \<mapsto> ''true''], Positional = [],
          Remaining = [''--name'', ''--other''], HelpAsked = False\<rparr> [''--other'']"
proof -
  have h1: "HasPrefix ''--name=foo'' ''--'' \<and> CHR ''='' \<in> set ''--name=foo''"
    by (simp add: HasPrefix_def)
  have h2: "HasPrefix ''--name'' ''--'' \<and> CHR ''='' \<notin> set ''--name'' \<and> \<not> HasPrefix ''foo'' ''-''"
    by (simp add: HasPrefix_def)
  have h3: "HasPrefix ''--name'' ''--'' \<and> CHR ''='' \<notin> set ''--name''
        \<and> ([''--other''] = [] \<or> HasPrefix (hd [''--other'']) ''-'')"
    by (simp add: HasPrefix_def)
  note t1 = parseFlagsAndArgs_long_flag
      [of "''--name=foo''" "\<lparr>Command = None, Flags = Map.empty, Positional = [],
          Remaining = [''--name=foo''], HelpAsked = False\<rparr>" "[]" "''x''"]
  note t2 = parseFlagsAndArgs_long_flag
      [of "''--name''" "\<lparr>Command = None, Flags = Map.empty, Positional = [],
          Remaining = [''--name'', ''foo''], HelpAsked = False\<rparr>" "[]" "''foo''"]
  note t3 = parseFlagsAndArgs_long_flag
      [of "''--name''" "\<lparr>Command = None, Flags = Map.empty, Positional = [],
          Remaining = [''--name'', ''--other''], HelpAsked = False\<rparr>" "[''--other'']" "''x''"]
  from t1 h1 have c1: "\<exists>name val. ''--name=foo'' = name @ ''='' @ val \<and> CHR ''='' \<notin> set name \<and>
         parseFlagsAndArgs
           \<lparr>Command = None, Flags = Map.empty, Positional = [], Remaining = [''--name=foo''],
            HelpAsked = False\<rparr> [''--name=foo''] =
         parseFlagsAndArgs
           \<lparr>Command = None, Flags = [name \<mapsto> val], Positional = [],
            Remaining = [''--name=foo''], HelpAsked = False\<rparr> []"
    by simp
  from t2 h2 have c2: "parseFlagsAndArgs
         \<lparr>Command = None, Flags = Map.empty, Positional = [], Remaining = [''--name'', ''foo''],
          HelpAsked = False\<rparr> [''--name'', ''foo''] =
       \<lparr>Command = None, Flags = [''--name'' \<mapsto> ''foo''], Positional = [],
        Remaining = [''--name'', ''foo''], HelpAsked = False\<rparr>"
    by simp
  from t3 h3 have c3: "parseFlagsAndArgs
         \<lparr>Command = None, Flags = Map.empty, Positional = [], Remaining = [''--name'', ''--other''],
          HelpAsked = False\<rparr> [''--name'', ''--other''] =
       parseFlagsAndArgs
         \<lparr>Command = None, Flags = [''--name'' \<mapsto> ''true''], Positional = [],
          Remaining = [''--name'', ''--other''], HelpAsked = False\<rparr> [''--other'']"
    by simp
  from h1 h2 h3 c1 c2 c3 show ?thesis by blast
qed

text \<open>
  C5. One step of the tokenizer on a token \<open>arg\<close> that starts with \<open>-\<close>, not with \<open>--\<close>,
  and is longer than 2 bytes: for each character (rune) \<open>ch\<close> of \<open>arg[1:]\<close> the flag
  \<open>"-" + ch\<close> is set to \<open>"true"\<close>, no other flag changes, and the tokens after \<open>arg\<close> are
  all still to be read (none is consumed as a value). For an ASCII token the characters
  are its bytes. From an empty flag map and positional list, the remainder \<open>["-abc"]\<close>
  gives exactly the flags \<open>-a\<close>, \<open>-b\<close>, \<open>-c\<close>, each \<open>"true"\<close>, and no positional.
\<close>

theorem parseFlagsAndArgs_compact_cluster:
  "(HasPrefix arg ''-'' \<and> \<not> HasPrefix arg ''--'' \<and> 2 < length arg \<longrightarrow>
      parseFlagsAndArgs p (arg # rest) =
        parseFlagsAndArgs
          (p\<lparr>Flags := (\<lambda>k. if k \<in> (\<lambda>ch. ''-'' @ ch) ` set (runes (drop 1 arg))
                            then Some ''true'' else ParsedArgs.Flags p k)\<rparr>) rest)
   \<and> (HasPrefix arg ''-'' \<and> \<not> HasPrefix arg ''--'' \<and> 2 < length arg
        \<and> (\<forall>c \<in> set arg. of_char c < (128::nat)) \<longrightarrow>
      parseFlagsAndArgs p (arg # rest) =
        parseFlagsAndArgs
          (p\<lparr>Flags := (\<lambda>k. if k \<in> (\<lambda>c. [CHR ''-'', c]) ` set (drop 1 arg)
                            then Some ''true'' else ParsedArgs.Flags p k)\<rparr>) rest)
   \<and> parseFlagsAndArgs (p\<lparr>Flags := Map.empty, Positional := []\<rparr>) [''-abc''] =
       p\<lparr>Flags := [''-a'' \<mapsto> ''true'', ''-b'' \<mapsto> ''true'', ''-c'' \<mapsto> ''true''],
         Positional := []\<rparr>"
proof (intro conjI impI)
  assume "HasPrefix arg ''-'' \<and> \<not> HasPrefix arg ''--'' \<and> 2 < length arg"
  then show "parseFlagsAndArgs p (arg # rest) =
        parseFlagsAndArgs
          (p\<lparr>Flags := (\<lambda>k. if k \<in> (\<lambda>ch. ''-'' @ ch) ` set (runes (drop 1 arg))
                            then Some ''true'' else ParsedArgs.Flags p k)\<rparr>) rest"
    using parse_compact [of arg p rest] by blast
next
  assume a: "HasPrefix arg ''-'' \<and> \<not> HasPrefix arg ''--'' \<and> 2 < length arg
        \<and> (\<forall>c \<in> set arg. of_char c < (128::nat))"
  then have "\<forall>c \<in> set (drop 1 arg). of_char c < (128::nat)"
    by (meson in_set_dropD)
  then have "runes (drop 1 arg) = map (\<lambda>c. [c]) (drop 1 arg)"
    by (rule runes_ascii)
  then have "(\<lambda>ch. ''-'' @ ch) ` set (runes (drop 1 arg)) = (\<lambda>c. [CHR ''-'', c]) ` set (drop 1 arg)"
    by (simp add: image_image)
  with a show "parseFlagsAndArgs p (arg # rest) =
        parseFlagsAndArgs
          (p\<lparr>Flags := (\<lambda>k. if k \<in> (\<lambda>c. [CHR ''-'', c]) ` set (drop 1 arg)
                            then Some ''true'' else ParsedArgs.Flags p k)\<rparr>) rest"
    using parse_compact [of arg p rest] by simp
next
  let ?q = "p\<lparr>Flags := Map.empty, Positional := []\<rparr>"
  have h: "HasPrefix ''-abc'' ''-''" "\<not> HasPrefix ''-abc'' ''--''" "2 < length ''-abc''"
    by (simp_all add: HasPrefix_def)
  have r: "runes (drop 1 ''-abc'') = [''a'', ''b'', ''c'']"
    by (simp add: decodeRune_def inRange_def)
  have m: "(\<lambda>k. if k \<in> (\<lambda>ch. ''-'' @ ch) ` set (runes (drop 1 ''-abc''))
                then Some ''true'' else ParsedArgs.Flags ?q k)
      = [''-a'' \<mapsto> ''true'', ''-b'' \<mapsto> ''true'', ''-c'' \<mapsto> ''true'']"
    unfolding r by (auto simp: fun_eq_iff)
  have "parseFlagsAndArgs ?q [''-abc''] =
      parseFlagsAndArgs
        (?q\<lparr>Flags := (\<lambda>k. if k \<in> (\<lambda>ch. ''-'' @ ch) ` set (runes (drop 1 ''-abc''))
                          then Some ''true'' else ParsedArgs.Flags ?q k)\<rparr>) []"
    by (rule parse_compact [OF h])
  also have "\<dots> = parseFlagsAndArgs
        (?q\<lparr>Flags := [''-a'' \<mapsto> ''true'', ''-b'' \<mapsto> ''true'', ''-c'' \<mapsto> ''true'']\<rparr>) []"
    by (simp only: m)
  also have "\<dots> = p\<lparr>Flags := [''-a'' \<mapsto> ''true'', ''-b'' \<mapsto> ''true'', ''-c'' \<mapsto> ''true''],
         Positional := []\<rparr>"
    by simp
  finally show "parseFlagsAndArgs (p\<lparr>Flags := Map.empty, Positional := []\<rparr>) [''-abc''] =
       p\<lparr>Flags := [''-a'' \<mapsto> ''true'', ''-b'' \<mapsto> ''true'', ''-c'' \<mapsto> ''true''],
         Positional := []\<rparr>" .
qed

theorem parseFlagsAndArgs_compact_cluster_witness:
  "(HasPrefix ''-xvf'' ''-'' \<and> \<not> HasPrefix ''-xvf'' ''--'' \<and> 2 < length ''-xvf'')
   \<and> parseFlagsAndArgs
        \<lparr>Command = None, Flags = Map.empty, Positional = [], Remaining = [''-xvf'', ''file''],
         HelpAsked = False\<rparr> [''-xvf'', ''file''] =
      \<lparr>Command = None, Flags = [''-x'' \<mapsto> ''true'', ''-v'' \<mapsto> ''true'', ''-f'' \<mapsto> ''true''],
       Positional = [''file''], Remaining = [''-xvf'', ''file''], HelpAsked = False\<rparr>"
proof -
  let ?p = "\<lparr>Command = None, Flags = Map.empty, Positional = [],
             Remaining = [''-xvf'', ''file''], HelpAsked = False\<rparr>"
  have h: "HasPrefix ''-xvf'' ''-'' \<and> \<not> HasPrefix ''-xvf'' ''--'' \<and> 2 < length ''-xvf''
      \<and> (\<forall>c \<in> set ''-xvf''. of_char c < (128::nat))"
    by (simp add: HasPrefix_def)
  have m: "(\<lambda>k. if k \<in> (\<lambda>c. [CHR ''-'', c]) ` set (drop 1 ''-xvf'') then Some ''true''
                else ParsedArgs.Flags ?p k)
      = [''-x'' \<mapsto> ''true'', ''-v'' \<mapsto> ''true'', ''-f'' \<mapsto> ''true'']"
    by (auto simp: fun_eq_iff)
  have nf: "\<not> HasPrefix ''file'' ''--''" "\<not> HasPrefix ''file'' ''-''"
    by (simp_all add: HasPrefix_def)
  from h parseFlagsAndArgs_compact_cluster [of "''-xvf''" ?p "[''file'']"]
  have "parseFlagsAndArgs ?p [''-xvf'', ''file''] =
      parseFlagsAndArgs
        (?p\<lparr>Flags := (\<lambda>k. if k \<in> (\<lambda>c. [CHR ''-'', c]) ` set (drop 1 ''-xvf'')
                          then Some ''true'' else ParsedArgs.Flags ?p k)\<rparr>) [''file'']"
    by blast
  also have "\<dots> = parseFlagsAndArgs
        (?p\<lparr>Flags := [''-x'' \<mapsto> ''true'', ''-v'' \<mapsto> ''true'', ''-f'' \<mapsto> ''true'']\<rparr>) [''file'']"
    by (simp only: m)
  also have "\<dots> = \<lparr>Command = None,
       Flags = [''-x'' \<mapsto> ''true'', ''-v'' \<mapsto> ''true'', ''-f'' \<mapsto> ''true''],
       Positional = [''file''], Remaining = [''-xvf'', ''file''], HelpAsked = False\<rparr>"
    using nf by simp
  finally show ?thesis using h by blast
qed

section \<open>Validation\<close>

lemma checkRequiredArgs_find:
  "checkRequiredArgs as parsed =
     map_option
       (\<lambda>a. \<lparr>Valid = False, ErrorMsg = ''missing required argument: '' @ Arg.Name a,
             ExitCode = 2\<rparr>)
       (find (\<lambda>a. Arg.Required a \<and> Arg.Name a \<notin> set (Positional parsed)) as)"
  by (induction as) (simp_all add: contains_iff)

lemma checkRequiredFlags_find:
  "checkRequiredFlags fs parsed =
     map_option
       (\<lambda>f. \<lparr>Valid = False, ErrorMsg = ''missing required flag: '' @ flagName f,
             ExitCode = 2\<rparr>)
       (find (\<lambda>f. Flag.Required f \<and> flagValue parsed f = []) fs)"
  by (induction fs) simp_all

lemma checkAllowedValues_find:
  "checkAllowedValues fs parsed =
     map_option
       (\<lambda>f. \<lparr>Valid = False,
             ErrorMsg = ''invalid value for '' @ flagName f @ '': '' @ flagValue parsed f,
             ExitCode = 2\<rparr>)
       (find (\<lambda>f. flagValue parsed f \<noteq> [] \<and> Allowed f \<noteq> []
                  \<and> flagValue parsed f \<notin> set (Allowed f)) fs)"
  by (induction fs) (simp_all add: contains_iff)

lemma ValidateParsed_find:
  "ValidateParsed cmd parsed =
     (case find (\<lambda>a. Arg.Required a \<and> Arg.Name a \<notin> set (Positional parsed)) (Args cmd) of
        Some a \<Rightarrow> \<lparr>Valid = False, ErrorMsg = ''missing required argument: '' @ Arg.Name a,
                   ExitCode = 2\<rparr>
      | None \<Rightarrow>
          (case find (\<lambda>f. Flag.Required f \<and> flagValue parsed f = []) (Command.Flags cmd) of
             Some f \<Rightarrow> \<lparr>Valid = False, ErrorMsg = ''missing required flag: '' @ flagName f,
                        ExitCode = 2\<rparr>
           | None \<Rightarrow>
               (case find (\<lambda>f. flagValue parsed f \<noteq> [] \<and> Allowed f \<noteq> []
                               \<and> flagValue parsed f \<notin> set (Allowed f)) (Command.Flags cmd) of
                  Some f \<Rightarrow> \<lparr>Valid = False,
                             ErrorMsg = ''invalid value for '' @ flagName f @ '': ''
                                        @ flagValue parsed f,
                             ExitCode = 2\<rparr>
                | None \<Rightarrow> \<lparr>Valid = True, ErrorMsg = [], ExitCode = 0\<rparr>)))"
  by (simp add: ValidateParsed_def checkRequiredArgs_find checkRequiredFlags_find
        checkAllowedValues_find split: option.splits)

lemma ValidateParsed_ExitCode:
  "ExitCode (ValidateParsed cmd parsed) = (if Valid (ValidateParsed cmd parsed) then 0 else 2)"
  by (simp add: ValidateParsed_find split: option.splits)

lemma ValidateParsed_ErrorMsg:
  "Valid (ValidateParsed cmd parsed) = (ErrorMsg (ValidateParsed cmd parsed) = [])"
  by (simp add: ValidateParsed_find split: option.splits)

lemma lookup_empty_value: "lookup (m(k \<mapsto> [])) = lookup (m(k := None))"
  by (auto simp: lookup_def fun_eq_iff)

lemma flagValue_lookup:
  "lookup (ParsedArgs.Flags a) = lookup (ParsedArgs.Flags b) \<Longrightarrow> flagValue a = flagValue b"
  by (simp add: flagValue_def fun_eq_iff cong: if_cong)

lemma ValidateParsed_lookup:
  assumes "lookup (ParsedArgs.Flags a) = lookup (ParsedArgs.Flags b)"
    and "Positional a = Positional b"
  shows "ValidateParsed cmd a = ValidateParsed cmd b"
proof -
  have fv: "flagValue a = flagValue b"
    using assms(1) by (rule flagValue_lookup)
  have e1: "checkRequiredArgs as a = checkRequiredArgs as b" for as
    by (induction as) (simp_all add: assms(2))
  have e2: "checkRequiredFlags fs a = checkRequiredFlags fs b" for fs
    by (induction fs) (simp_all add: fv)
  have e3: "checkAllowedValues fs a = checkAllowedValues fs b" for fs
    by (induction fs) (simp_all add: fv)
  show ?thesis unfolding ValidateParsed_def e1 e2 e3 ..
qed

lemma checkAllowedValues_skip_empty:
  "checkAllowedValues fs parsed =
     checkAllowedValues (filter (\<lambda>f. flagValue parsed f \<noteq> []) fs) parsed"
  by (induction fs) simp_all

lemma required_flag_empty:
  assumes "flag \<in> set fs" "Flag.Required flag" "flagValue parsed flag = []"
  shows "\<exists>g \<in> set fs. Flag.Required g \<and> flagValue parsed g = [] \<and>
           checkRequiredFlags fs parsed =
             Some \<lparr>Valid = False, ErrorMsg = ''missing required flag: '' @ flagName g,
                   ExitCode = 2\<rparr>"
  using assms by (induction fs) auto

text \<open>
  C2. Validation is three checks in a fixed order, and the first failure is the result:
  the first required argument whose name is not among the positional tokens gives
  "missing required argument"; if there is none, the first required flag without a value
  gives "missing required flag"; if there is none, the first flag whose value is not
  among its (non-empty) allowed values gives "invalid value for"; otherwise the result is
  valid, with an empty message. The exit code is 2 exactly when the result is not valid,
  and 0 otherwise. For a command requiring the argument \<open>src\<close> (its name must be among
  the positional tokens) and the flag \<open>--out\<close> with allowed values \<open>a\<close>, \<open>b\<close>: no
  positional and no flag gives the missing-argument error; the positional \<open>src\<close> alone
  gives the missing-flag error; with \<open>--out = c\<close> the result is
  "invalid value for --out: c", exit code 2; with \<open>--out = a\<close> it is valid, with an empty
  message and exit code 0.
\<close>

theorem ValidateParsed_three_checks:
  fixes n ps fn an pr ex al fi de ev cs
  defines "cmd0 \<equiv> Command.Command n ps fn an pr ex al fi de [Arg ''src'' True]
                   [Flag ''--out'' [] True [''a'', ''b''] False] ev cs"
  shows
  "ValidateParsed cmd parsed =
     (case find (\<lambda>a. Arg.Required a \<and> Arg.Name a \<notin> set (Positional parsed)) (Args cmd) of
        Some a \<Rightarrow> \<lparr>Valid = False, ErrorMsg = ''missing required argument: '' @ Arg.Name a,
                   ExitCode = 2\<rparr>
      | None \<Rightarrow>
          (case find (\<lambda>f. Flag.Required f \<and> flagValue parsed f = []) (Command.Flags cmd) of
             Some f \<Rightarrow> \<lparr>Valid = False, ErrorMsg = ''missing required flag: '' @ flagName f,
                        ExitCode = 2\<rparr>
           | None \<Rightarrow>
               (case find (\<lambda>f. flagValue parsed f \<noteq> [] \<and> Allowed f \<noteq> []
                               \<and> flagValue parsed f \<notin> set (Allowed f)) (Command.Flags cmd) of
                  Some f \<Rightarrow> \<lparr>Valid = False,
                             ErrorMsg = ''invalid value for '' @ flagName f @ '': ''
                                        @ flagValue parsed f,
                             ExitCode = 2\<rparr>
                | None \<Rightarrow> \<lparr>Valid = True, ErrorMsg = [], ExitCode = 0\<rparr>)))
   \<and> ExitCode (ValidateParsed cmd parsed) = (if Valid (ValidateParsed cmd parsed) then 0 else 2)
   \<and> Valid (ValidateParsed cmd parsed) = (ErrorMsg (ValidateParsed cmd parsed) = [])
   \<and> ValidateParsed cmd0 (p\<lparr>Positional := [], Flags := Map.empty\<rparr>) =
      \<lparr>Valid = False, ErrorMsg = ''missing required argument: src'', ExitCode = 2\<rparr>
   \<and> ValidateParsed cmd0 (p\<lparr>Positional := [''src''], Flags := Map.empty\<rparr>) =
      \<lparr>Valid = False, ErrorMsg = ''missing required flag: --out'', ExitCode = 2\<rparr>
   \<and> ValidateParsed cmd0 (p\<lparr>Positional := [''src''], Flags := [''--out'' \<mapsto> ''c'']\<rparr>) =
      \<lparr>Valid = False, ErrorMsg = ''invalid value for --out: c'', ExitCode = 2\<rparr>
   \<and> ValidateParsed cmd0 (p\<lparr>Positional := [''src''], Flags := [''--out'' \<mapsto> ''a'']\<rparr>) =
      \<lparr>Valid = True, ErrorMsg = [], ExitCode = 0\<rparr>"
proof (intro conjI)
  show "ExitCode (ValidateParsed cmd parsed) = (if Valid (ValidateParsed cmd parsed) then 0 else 2)"
    by (rule ValidateParsed_ExitCode)
  show "Valid (ValidateParsed cmd parsed) = (ErrorMsg (ValidateParsed cmd parsed) = [])"
    by (rule ValidateParsed_ErrorMsg)
qed (simp_all only: ValidateParsed_find [symmetric],
     simp_all add: cmd0_def ValidateParsed_def flagValue_def flagName_def lookup_def)

text \<open>
  C10. A flag value that is the empty string validates exactly as an absent one: the
  result of validation is the same whether a key of the flag map is bound to \<open>""\<close> or
  is not bound. So if, for a required flag of the command, both the long and the short
  token read as \<open>""\<close> in the flag map, and all required arguments are present, validation
  fails with a missing-required-flag error and exit code 2; and the allowed-values check
  only looks at the flags whose value is not empty. The remainder \<open>["--out="]\<close> binds
  \<open>--out\<close> to \<open>""\<close>, and a command that requires \<open>--out\<close> then reports
  "missing required flag: --out".
\<close>

theorem ValidateParsed_empty_value:
  fixes n ps fn an pr ex al fi de ars sh alw pv ev cs
  defines "cmd0 \<equiv> Command.Command n ps fn an pr ex al fi de []
                   [Flag ''--out'' sh True alw pv] ev cs"
  shows
  "ValidateParsed cmd (parsed\<lparr>Flags := (ParsedArgs.Flags parsed)(k \<mapsto> [])\<rparr>) =
     ValidateParsed cmd (parsed\<lparr>Flags := (ParsedArgs.Flags parsed)(k := None)\<rparr>)
   \<and> (flag \<in> set (Command.Flags cmd) \<and> Flag.Required flag
        \<and> lookup (ParsedArgs.Flags parsed) (Long flag) = []
        \<and> lookup (ParsedArgs.Flags parsed) (Short flag) = []
        \<and> (\<forall>a \<in> set (Args cmd). Arg.Required a \<longrightarrow> Arg.Name a \<in> set (Positional parsed))
      \<longrightarrow> (\<exists>g \<in> set (Command.Flags cmd).
            ValidateParsed cmd parsed =
              \<lparr>Valid = False, ErrorMsg = ''missing required flag: '' @ flagName g,
               ExitCode = 2\<rparr>))
   \<and> checkAllowedValues fs parsed =
       checkAllowedValues (filter (\<lambda>f. flagValue parsed f \<noteq> []) fs) parsed
   \<and> ParsedArgs.Flags (parseFlagsAndArgs (p\<lparr>Flags := Map.empty\<rparr>) [''--out=''])
       = [''--out'' \<mapsto> []]
   \<and> ValidateParsed cmd0 (parseFlagsAndArgs (p\<lparr>Flags := Map.empty\<rparr>) [''--out='']) =
       \<lparr>Valid = False, ErrorMsg = ''missing required flag: --out'', ExitCode = 2\<rparr>"
proof (intro conjI impI)
  show "ValidateParsed cmd (parsed\<lparr>Flags := (ParsedArgs.Flags parsed)(k \<mapsto> [])\<rparr>) =
     ValidateParsed cmd (parsed\<lparr>Flags := (ParsedArgs.Flags parsed)(k := None)\<rparr>)"
    by (rule ValidateParsed_lookup) (simp_all add: lookup_empty_value)
next
  assume a: "flag \<in> set (Command.Flags cmd) \<and> Flag.Required flag
        \<and> lookup (ParsedArgs.Flags parsed) (Long flag) = []
        \<and> lookup (ParsedArgs.Flags parsed) (Short flag) = []
        \<and> (\<forall>a \<in> set (Args cmd). Arg.Required a \<longrightarrow> Arg.Name a \<in> set (Positional parsed))"
  then have "flagValue parsed flag = []" by (simp add: flagValue_def)
  with a obtain g where g: "g \<in> set (Command.Flags cmd)"
    "checkRequiredFlags (Command.Flags cmd) parsed =
       Some \<lparr>Valid = False, ErrorMsg = ''missing required flag: '' @ flagName g, ExitCode = 2\<rparr>"
    using required_flag_empty [of flag "Command.Flags cmd" parsed] by blast
  from a have "find (\<lambda>a. Arg.Required a \<and> Arg.Name a \<notin> set (Positional parsed)) (Args cmd) = None"
    by (auto simp: find_None_iff)
  then have "checkRequiredArgs (Args cmd) parsed = None"
    by (simp add: checkRequiredArgs_find)
  with g show "\<exists>g \<in> set (Command.Flags cmd).
            ValidateParsed cmd parsed =
              \<lparr>Valid = False, ErrorMsg = ''missing required flag: '' @ flagName g,
               ExitCode = 2\<rparr>"
    by (auto simp: ValidateParsed_def)
next
  show "checkAllowedValues fs parsed =
       checkAllowedValues (filter (\<lambda>f. flagValue parsed f \<noteq> []) fs) parsed"
    by (rule checkAllowedValues_skip_empty)
next
  have h: "HasPrefix ''--out='' ''--''" by (simp add: HasPrefix_def)
  have e: "parseFlagsAndArgs (p\<lparr>Flags := Map.empty\<rparr>) [''--out='']
      = p\<lparr>Flags := [''--out'' \<mapsto> []]\<rparr>"
    using h by (simp add: parse_long_eq del: parseFlagsAndArgs.simps(2))
  show "ParsedArgs.Flags (parseFlagsAndArgs (p\<lparr>Flags := Map.empty\<rparr>) [''--out=''])
       = [''--out'' \<mapsto> []]"
    unfolding e by simp
  show "ValidateParsed cmd0 (parseFlagsAndArgs (p\<lparr>Flags := Map.empty\<rparr>) [''--out='']) =
       \<lparr>Valid = False, ErrorMsg = ''missing required flag: --out'', ExitCode = 2\<rparr>"
    unfolding e by (simp add: cmd0_def ValidateParsed_def flagValue_def flagName_def lookup_def)
qed

theorem ValidateParsed_empty_value_witness:
  "ValidateParsed
     (Command.Command ''copy'' [''cli''] ''cli copy'' ''copy'' False [] [''copy'']
        ''copy_command.sh'' [] [Arg ''src'' True] [Flag ''--out'' ''-o'' True [''a'', ''b''] False]
        [] [])
     \<lparr>Command = None, Flags = [''--out'' \<mapsto> []], Positional = [''src''],
      Remaining = [''src'', ''--out=''], HelpAsked = False\<rparr>
   = \<lparr>Valid = False, ErrorMsg = ''missing required flag: --out'', ExitCode = 2\<rparr>"
proof -
  let ?flag = "Flag ''--out'' ''-o'' True [''a'', ''b''] False"
  let ?cmd = "Command.Command ''copy'' [''cli''] ''cli copy'' ''copy'' False [] [''copy'']
        ''copy_command.sh'' [] [Arg ''src'' True] [?flag] [] []"
  let ?parsed = "\<lparr>Command = None, Flags = [''--out'' \<mapsto> []], Positional = [''src''],
      Remaining = [''src'', ''--out=''], HelpAsked = False\<rparr>"
  have hyp: "?flag \<in> set (Command.Flags ?cmd) \<and> Flag.Required ?flag
        \<and> lookup (ParsedArgs.Flags ?parsed) (Long ?flag) = []
        \<and> lookup (ParsedArgs.Flags ?parsed) (Short ?flag) = []
        \<and> (\<forall>a \<in> set (Args ?cmd). Arg.Required a \<longrightarrow> Arg.Name a \<in> set (Positional ?parsed))"
    by (simp add: lookup_def)
  from hyp ValidateParsed_empty_value
      [where flag = ?flag and cmd = ?cmd and parsed = ?parsed, THEN conjunct2, THEN conjunct1]
  have "\<exists>g \<in> set (Command.Flags ?cmd).
          ValidateParsed ?cmd ?parsed =
            \<lparr>Valid = False, ErrorMsg = ''missing required flag: '' @ flagName g, ExitCode = 2\<rparr>"
    by blast
  then show ?thesis by (simp add: flagName_def)
qed

section \<open>Building the command tree\<close>

lemma name_empty_iff:
  "fst (asString (index opts ''name'')) = [] \<longleftrightarrow> lacksName opts"
  by (auto simp: asString_def index_def lacksName_def split: option.splits any.splits)

lemma buildChildren_isl:
  "isl (buildChildren lib list i parent st) = defectiveEntries list"
proof (induction lib list i parent st rule: buildChildren.induct)
  case (1 lib i parent st)
  show ?case by simp
next
  case (2 lib raw list i parent st)
  show ?case
  proof (cases raw)
    case (AnyMap opts)
    show ?thesis
    proof (cases "lacksName opts")
      case True
      then show ?thesis using AnyMap by (simp add: name_empty_iff)
    next
      case named: False
      let ?name = "fst (asString (index opts ''name''))"
      let ?cmd = "newChild lib opts ?name parent st"
      from named have ne: "?name \<noteq> []" by (simp add: name_empty_iff)
      show ?thesis
      proof (cases "map_of opts ''commands''")
        case None
        from "2.IH"(1) [OF AnyMap refl ne refl None]
        show ?thesis using AnyMap named ne None
          by (auto simp: Let_def split: sum.splits)
      next
        case (Some sub)
        show ?thesis
        proof (cases sub)
          case (AnyList subList)
          note ih2 = "2.IH"(2) [OF AnyMap refl ne refl Some AnyList]
          show ?thesis
          proof (cases "buildChildren lib subList 0 ?cmd st")
            case (Inl err)
            with ih2 show ?thesis using AnyMap named ne Some AnyList
              by (simp add: Let_def)
          next
            case (Inr children)
            from "2.IH"(3) [OF AnyMap refl ne refl Some AnyList Inr]
            show ?thesis using ih2 Inr AnyMap named ne Some AnyList
              by (auto simp: Let_def split: sum.splits)
          qed
        qed (use AnyMap named ne Some in \<open>simp_all add: Let_def\<close>)
      qed
    qed
  qed simp_all
qed

lemma BuildFromConfigMap_isl:
  "isl (BuildFromConfigMap lib cfg st) = defectiveConfig cfg"
proof (cases "map_of cfg ''commands''")
  case None
  then show ?thesis
    by (simp add: BuildFromConfigMap_def defectiveConfig_def Let_def)
next
  case (Some cmds)
  show ?thesis
  proof (cases cmds)
    case (AnyList list)
    show ?thesis
      using buildChildren_isl [of lib list 0 "newRoot lib cfg st" st]
      by (cases "buildChildren lib list 0 (newRoot lib cfg st) st")
         (simp_all add: BuildFromConfigMap_def defectiveConfig_def Let_def Some AnyList)
  qed (simp_all add: BuildFromConfigMap_def defectiveConfig_def Let_def Some)
qed

lemma buildChildren_append_error:
  "\<not> defectiveEntries pre \<Longrightarrow>
   buildChildren lib rest (i + length pre) parent st = Inl e \<Longrightarrow>
   buildChildren lib (pre @ rest) i parent st = Inl e"
proof (induction pre arbitrary: i)
  case Nil
  then show ?case by simp
next
  case (Cons raw pre)
  from Cons.prems(1) obtain opts where raw: "raw = AnyMap opts"
    by (cases raw) auto
  from Cons.prems(1) raw have named: "fst (asString (index opts ''name'')) \<noteq> []"
    and pre: "\<not> defectiveEntries pre"
    by (auto simp: name_empty_iff)
  from Cons.prems(2) have "buildChildren lib rest (Suc i + length pre) parent st = Inl e"
    by simp
  from Cons.IH [OF pre this]
  have rest: "buildChildren lib (pre @ rest) (Suc i) parent st = Inl e" .
  show ?case
  proof (cases "map_of opts ''commands''")
    case None
    with raw named rest show ?thesis by (simp add: Let_def)
  next
    case (Some sub)
    with Cons.prems(1) raw obtain subList where sub: "sub = AnyList subList"
      and ok: "\<not> defectiveEntries subList"
      by (cases sub) auto
    from ok obtain children where
      "buildChildren lib subList 0
         (newChild lib opts (fst (asString (index opts ''name''))) parent st) st = Inr children"
      using buildChildren_isl
        [of lib subList 0 "newChild lib opts (fst (asString (index opts ''name''))) parent st" st]
      by (cases "buildChildren lib subList 0
         (newChild lib opts (fst (asString (index opts ''name''))) parent st) st") auto
    with raw named rest Some sub show ?thesis by (simp add: Let_def)
  qed
qed

lemma buildChildren_first_nameless:
  assumes "\<not> defectiveEntries pre" and "lacksName opts"
  shows "buildChildren lib (pre @ AnyMap opts # post) i parent st =
           Inl (CommandNameRequired (i + length pre))"
proof -
  have "buildChildren lib (AnyMap opts # post) (i + length pre) parent st =
          Inl (CommandNameRequired (i + length pre))"
    using assms(2) by (simp add: name_empty_iff)
  with assms(1) show ?thesis by (rule buildChildren_append_error)
qed

lemma buildChildren_first_not_mapping:
  assumes "\<not> defectiveEntries pre" and "\<not> isMapping raw"
  shows "buildChildren lib (pre @ raw # post) i parent st =
           Inl (CommandNotMapping (i + length pre))"
proof -
  have "buildChildren lib (raw # post) (i + length pre) parent st =
          Inl (CommandNotMapping (i + length pre))"
    using assms(2) by (cases raw) (simp_all add: isMapping_def)
  with assms(1) show ?thesis by (rule buildChildren_append_error)
qed

text \<open>
  C7. If the \<open>commands\<close> structure of a configuration has a defect at any nesting level
  (a \<open>commands\<close> value that is not a list, an entry that is not a mapping, an entry
  without a non-empty \<open>name\<close>), the build returns an error and no tree; the same holds
  for the build of any \<open>commands\<close> list. If the entries of a \<open>commands\<close> list before
  some position have no defect and the entry at that position is a mapping without a
  non-empty \<open>name\<close>, the error is the missing-name error with that position as its index
  (positions count from 0 in each list), and its message is
  \<open>commands[<index>].name is required\<close>.
\<close>

theorem BuildFromConfigMap_structural_error:
  "(defectiveConfig cfg \<longrightarrow>
      (\<exists>e. BuildFromConfigMap lib cfg st = Inl e)
      \<and> (\<forall>root. BuildFromConfigMap lib cfg st \<noteq> Inr root))
   \<and> (defectiveEntries list \<longrightarrow>
      (\<exists>e. buildChildren lib list i parent st = Inl e)
      \<and> (\<forall>out. buildChildren lib list i parent st \<noteq> Inr out))
   \<and> (\<not> defectiveEntries pre \<and> lacksName opts \<longrightarrow>
        buildChildren lib (pre @ AnyMap opts # post) 0 parent st =
          Inl (CommandNameRequired (length pre)))
   \<and> (map_of cfg ''commands'' = Some (AnyList (pre @ AnyMap opts # post))
        \<and> \<not> defectiveEntries pre \<and> lacksName opts \<longrightarrow>
        BuildFromConfigMap lib cfg st = Inl (CommandNameRequired (length pre)))
   \<and> errorString (CommandNameRequired (length pre)) =
        ''commands['' @ itoa (length pre) @ ''].name is required''"
proof (intro conjI impI allI)
  assume d: "defectiveConfig cfg"
  with BuildFromConfigMap_isl [of lib cfg st]
  show "\<exists>e. BuildFromConfigMap lib cfg st = Inl e"
    by (cases "BuildFromConfigMap lib cfg st") auto
  fix root
  from d BuildFromConfigMap_isl [of lib cfg st]
  show "BuildFromConfigMap lib cfg st \<noteq> Inr root" by auto
next
  assume d: "defectiveEntries list"
  with buildChildren_isl [of lib list i parent st]
  show "\<exists>e. buildChildren lib list i parent st = Inl e"
    by (cases "buildChildren lib list i parent st") auto
  fix out
  from d buildChildren_isl [of lib list i parent st]
  show "buildChildren lib list i parent st \<noteq> Inr out" by auto
next
  assume "\<not> defectiveEntries pre \<and> lacksName opts"
  then show "buildChildren lib (pre @ AnyMap opts # post) 0 parent st =
          Inl (CommandNameRequired (length pre))"
    using buildChildren_first_nameless [of pre opts lib post 0 parent st] by simp
next
  assume a: "map_of cfg ''commands'' = Some (AnyList (pre @ AnyMap opts # post))
        \<and> \<not> defectiveEntries pre \<and> lacksName opts"
  then have "buildChildren lib (pre @ AnyMap opts # post) 0 (newRoot lib cfg st) st =
          Inl (CommandNameRequired (length pre))"
    using buildChildren_first_nameless [of pre opts lib post 0 "newRoot lib cfg st" st] by simp
  with a show "BuildFromConfigMap lib cfg st = Inl (CommandNameRequired (length pre))"
    by (simp add: BuildFromConfigMap_def Let_def)
next
  show "errorString (CommandNameRequired (length pre)) =
        ''commands['' @ itoa (length pre) @ ''].name is required''"
    by (simp add: errorString_def)
qed

theorem BuildFromConfigMap_structural_error_witness:
  "defectiveConfig
     [(''name'', AnyString ''cli''),
      (''commands'', AnyList [AnyMap [(''name'', AnyString ''a'')],
                             AnyMap [(''description'', AnyString ''x'')]])]
   \<and> lacksName [(''description'', AnyString ''x'')]
   \<and> BuildFromConfigMap exampleLib
       [(''name'', AnyString ''cli''),
        (''commands'', AnyList [AnyMap [(''name'', AnyString ''a'')],
                               AnyMap [(''description'', AnyString ''x'')]])] Default
      = Inl (CommandNameRequired 1)
   \<and> errorString (CommandNameRequired 1) = ''commands[1].name is required''"
proof -
  let ?pre = "[AnyMap [(''name'', AnyString ''a'')]]"
  let ?opts = "[(''description'', AnyString ''x'')]"
  let ?cfg = "[(''name'', AnyString ''cli''), (''commands'', AnyList (?pre @ AnyMap ?opts # []))]"
  have h: "map_of ?cfg ''commands'' = Some (AnyList (?pre @ AnyMap ?opts # []))
        \<and> \<not> defectiveEntries ?pre \<and> lacksName ?opts"
    by (simp add: lacksName_def)
  have d: "defectiveConfig ?cfg"
    by (simp add: defectiveConfig_def lacksName_def)
  note t = BuildFromConfigMap_structural_error
      [where cfg = ?cfg and pre = ?pre and opts = ?opts and post = "[]" and lib = exampleLib
         and st = Default]
  from t h have b: "BuildFromConfigMap exampleLib ?cfg Default = Inl (CommandNameRequired (length ?pre))"
    by blast
  from t have e: "errorString (CommandNameRequired (length ?pre)) =
        ''commands['' @ itoa (length ?pre) @ ''].name is required''"
    by blast
  have c: "char_of (49::nat) = CHR ''1''" by code_simp
  from d h b e show ?thesis by (simp add: c)
qed

lemma parseArgsLoop_append:
  "parseArgsLoop (xs @ ys) = parseArgsLoop xs @ parseArgsLoop ys"
  by (induction xs) (simp_all add: Let_def split: any.splits)

lemma parseEnvVarsLoop_append:
  "parseEnvVarsLoop (xs @ ys) = parseEnvVarsLoop xs @ parseEnvVarsLoop ys"
  by (induction xs) (simp_all add: Let_def split: any.splits)

lemma parseFlagsLoop_append:
  "parseFlagsLoop (xs @ ys) = parseFlagsLoop xs @ parseFlagsLoop ys"
  by (induction xs) (simp_all split: any.splits)

lemma parseArgsLoop_filter:
  "parseArgsLoop (filter isNamedMapping list) = parseArgsLoop list"
  by (induction list)
     (simp_all add: Let_def isNamedMapping_def name_empty_iff split: any.splits)

lemma parseEnvVarsLoop_filter:
  "parseEnvVarsLoop (filter isNamedMapping list) = parseEnvVarsLoop list"
  by (induction list)
     (simp_all add: Let_def isNamedMapping_def name_empty_iff split: any.splits)

lemma parseFlagsLoop_filter:
  "parseFlagsLoop (filter isMapping list) = parseFlagsLoop list"
  by (induction list) (simp_all add: isMapping_def split: any.splits)

lemma parseArgsLoop_length:
  "length (parseArgsLoop list) = length (filter isNamedMapping list)"
  by (induction list)
     (simp_all add: Let_def isNamedMapping_def name_empty_iff split: any.splits)

lemma parseEnvVarsLoop_length:
  "length (parseEnvVarsLoop list) = length (filter isNamedMapping list)"
  by (induction list)
     (simp_all add: Let_def isNamedMapping_def name_empty_iff split: any.splits)

lemma parseFlagsLoop_length:
  "length (parseFlagsLoop list) = length (filter isMapping list)"
  by (induction list) (simp_all add: isMapping_def split: any.splits)

lemma buildChildren_Inr:
  "\<not> defectiveEntries list \<Longrightarrow> \<exists>out. buildChildren lib list i parent st = Inr out"
  using buildChildren_isl [of lib list i parent st]
  by (cases "buildChildren lib list i parent st") auto

lemma withCommands_sel [simp]:
  "Command.Name (withCommands c cs) = Command.Name c"
  "Parents (withCommands c cs) = Parents c"
  "FullName (withCommands c cs) = FullName c"
  "ActionName (withCommands c cs) = ActionName c"
  "Args (withCommands c cs) = Args c"
  "Command.Flags (withCommands c cs) = Command.Flags c"
  "EnvVars (withCommands c cs) = EnvVars c"
  "Alias (withCommands c cs) = Alias c"
  "Commands (withCommands c cs) = cs"
  by (simp_all add: withCommands_def)

lemma newRoot_sel [simp]:
  "Parents (newRoot lib cfg st) = []"
  "ActionName (newRoot lib cfg st) = ''root''"
  "Args (newRoot lib cfg st) = parseArgs (index cfg ''args'')"
  "Command.Flags (newRoot lib cfg st) = parseFlags (index cfg ''flags'')"
  "EnvVars (newRoot lib cfg st) = parseEnvVars (index cfg ''environment_variables'')"
  "Commands (newRoot lib cfg st) = []"
  by (simp_all add: newRoot_def Let_def)

lemma BuildFromConfigMap_Inr:
  assumes "\<not> defectiveConfig cfg"
  shows "\<exists>children. BuildFromConfigMap lib cfg st = Inr (withCommands (newRoot lib cfg st) children)"
proof (cases "map_of cfg ''commands''")
  case None
  have "withCommands (newRoot lib cfg st) [] = newRoot lib cfg st"
    by (simp add: withCommands_def newRoot_def Let_def)
  with None show ?thesis
    by (auto simp: BuildFromConfigMap_def Let_def intro: exI [of _ "[]"])
next
  case (Some cmds)
  with assms obtain list where l: "cmds = AnyList list" and ok: "\<not> defectiveEntries list"
    by (cases cmds) (auto simp: defectiveConfig_def)
  from buildChildren_Inr [OF ok] obtain out where
    "buildChildren lib list 0 (newRoot lib cfg st) st = Inr out" by blast
  with Some l show ?thesis by (auto simp: BuildFromConfigMap_def Let_def)
qed


text \<open>
  C8. Parsing the declared \<open>args\<close>, \<open>flags\<close> and \<open>environment_variables\<close> cannot fail
  the build. A declaration value that is not a list gives an empty declaration list.
  An entry that is not a mapping gives no declaration; a mapping gives one argument
  (and one environment variable) declaration unless it lacks a non-empty \<open>name\<close>, in
  which case it gives none; a mapping always gives one flag declaration. The result for
  a list is the concatenation of the results for its entries, in order: it is the result
  for the list of the entries that are kept, has as many declarations as there are kept
  entries, and so is never longer than the authored list. A configuration whose
  \<open>commands\<close> structure has no defect builds to a tree, whatever its declarations are,
  and the root carries the declaration lists parsed in this way.
\<close>

theorem declarations_parsed_permissively:
  "((\<forall>list. v \<noteq> AnyList list) \<longrightarrow>
       parseArgs v = [] \<and> parseFlags v = [] \<and> parseEnvVars v = [])
   \<and> (\<not> isMapping raw \<longrightarrow>
       parseArgs (AnyList [raw]) = [] \<and> parseFlags (AnyList [raw]) = []
       \<and> parseEnvVars (AnyList [raw]) = [])
   \<and> parseArgs (AnyList [AnyMap m]) =
       (if lacksName m then []
        else [Arg (fst (asString (index m ''name''))) (fst (asBool (index m ''required'')))])
   \<and> parseEnvVars (AnyList [AnyMap m]) =
       (if lacksName m then []
        else [EnvVar (fst (asString (index m ''name''))) (fst (asBool (index m ''private'')))])
   \<and> length (parseFlags (AnyList [AnyMap m])) = 1
   \<and> parseArgs (AnyList (xs @ ys)) = parseArgs (AnyList xs) @ parseArgs (AnyList ys)
   \<and> parseFlags (AnyList (xs @ ys)) = parseFlags (AnyList xs) @ parseFlags (AnyList ys)
   \<and> parseEnvVars (AnyList (xs @ ys)) = parseEnvVars (AnyList xs) @ parseEnvVars (AnyList ys)
   \<and> parseArgs (AnyList xs) = parseArgs (AnyList (filter isNamedMapping xs))
   \<and> parseFlags (AnyList xs) = parseFlags (AnyList (filter isMapping xs))
   \<and> parseEnvVars (AnyList xs) = parseEnvVars (AnyList (filter isNamedMapping xs))
   \<and> length (parseArgs (AnyList xs)) = length (filter isNamedMapping xs)
   \<and> length (parseFlags (AnyList xs)) = length (filter isMapping xs)
   \<and> length (parseEnvVars (AnyList xs)) = length (filter isNamedMapping xs)
   \<and> length (parseArgs (AnyList xs)) \<le> length xs
   \<and> length (parseFlags (AnyList xs)) \<le> length xs
   \<and> length (parseEnvVars (AnyList xs)) \<le> length xs
   \<and> (\<not> defectiveConfig cfg \<longrightarrow>
        (\<exists>root. BuildFromConfigMap lib cfg st = Inr root
           \<and> Args root = parseArgs (index cfg ''args'')
           \<and> Command.Flags root = parseFlags (index cfg ''flags'')
           \<and> EnvVars root = parseEnvVars (index cfg ''environment_variables'')))"
proof (intro conjI impI)
  assume "\<forall>list. v \<noteq> AnyList list"
  then show "parseArgs v = []" "parseFlags v = []" "parseEnvVars v = []"
    by (cases v; simp add: parseArgs_def parseFlags_def parseEnvVars_def)+
next
  assume "\<not> isMapping raw"
  then show "parseArgs (AnyList [raw]) = []" "parseFlags (AnyList [raw]) = []"
    "parseEnvVars (AnyList [raw]) = []"
    by (cases raw; simp add: parseArgs_def parseFlags_def parseEnvVars_def isMapping_def)+
next
  assume "\<not> defectiveConfig cfg"
  from BuildFromConfigMap_Inr [OF this, of lib st]
  show "\<exists>root. BuildFromConfigMap lib cfg st = Inr root
           \<and> Args root = parseArgs (index cfg ''args'')
           \<and> Command.Flags root = parseFlags (index cfg ''flags'')
           \<and> EnvVars root = parseEnvVars (index cfg ''environment_variables'')"
    by auto
qed (simp_all add: parseArgs_def parseFlags_def parseEnvVars_def Let_def name_empty_iff
       parseArgsLoop_append parseFlagsLoop_append parseEnvVarsLoop_append
       parseArgsLoop_filter parseFlagsLoop_filter parseEnvVarsLoop_filter
       parseArgsLoop_length parseFlagsLoop_length parseEnvVarsLoop_length)

theorem declarations_parsed_permissively_witness:
  "\<not> isMapping (AnyString ''x'')
   \<and> parseArgs (AnyList [AnyString ''x'']) = []
   \<and> parseFlags AnyOther = []
   \<and> \<not> defectiveConfig
       [(''name'', AnyString ''cli''),
        (''args'', AnyList [AnyString ''x'', AnyMap [(''required'', AnyBool True)],
                           AnyMap [(''name'', AnyString ''src''), (''required'', AnyBool True)]]),
        (''flags'', AnyOther),
        (''environment_variables'',
           AnyList [AnyMap [(''name'', AnyString '''')], AnyMap [(''name'', AnyString ''HOME'')]])]
   \<and> (\<exists>root. BuildFromConfigMap exampleLib
         [(''name'', AnyString ''cli''),
          (''args'', AnyList [AnyString ''x'', AnyMap [(''required'', AnyBool True)],
                             AnyMap [(''name'', AnyString ''src''), (''required'', AnyBool True)]]),
          (''flags'', AnyOther),
          (''environment_variables'',
             AnyList [AnyMap [(''name'', AnyString '''')], AnyMap [(''name'', AnyString ''HOME'')]])]
         Default = Inr root
       \<and> Args root = [Arg ''src'' True]
       \<and> Command.Flags root = []
       \<and> EnvVars root = [EnvVar ''HOME'' False])"
proof -
  let ?cfg = "[(''name'', AnyString ''cli''),
        (''args'', AnyList [AnyString ''x'', AnyMap [(''required'', AnyBool True)],
                           AnyMap [(''name'', AnyString ''src''), (''required'', AnyBool True)]]),
        (''flags'', AnyOther),
        (''environment_variables'',
           AnyList [AnyMap [(''name'', AnyString '''')], AnyMap [(''name'', AnyString ''HOME'')]])]"
  note t = declarations_parsed_permissively
      [where v = AnyOther and raw = "AnyString ''x''" and cfg = ?cfg and lib = exampleLib
         and st = Default]
  have h1: "\<forall>list. AnyOther \<noteq> AnyList list" by simp
  have h2: "\<not> isMapping (AnyString ''x'')" by (simp add: isMapping_def)
  have h3: "\<not> defectiveConfig ?cfg" by (simp add: defectiveConfig_def)
  from t h1 have c1: "parseFlags AnyOther = []" by blast
  from t h2 have c2: "parseArgs (AnyList [AnyString ''x'']) = []" by blast
  from t h3 have c3: "\<exists>root. BuildFromConfigMap exampleLib ?cfg Default = Inr root
           \<and> Args root = parseArgs (index ?cfg ''args'')
           \<and> Command.Flags root = parseFlags (index ?cfg ''flags'')
           \<and> EnvVars root = parseEnvVars (index ?cfg ''environment_variables'')"
    by blast
  have e: "parseArgs (index ?cfg ''args'') = [Arg ''src'' True]"
    "parseFlags (index ?cfg ''flags'') = []"
    "parseEnvVars (index ?cfg ''environment_variables'') = [EnvVar ''HOME'' False]"
    by (simp_all add: index_def parseArgs_def parseFlags_def parseEnvVars_def asString_def
          asBool_def)
  from c3 have "\<exists>root. BuildFromConfigMap exampleLib ?cfg Default = Inr root
       \<and> Args root = [Arg ''src'' True]
       \<and> Command.Flags root = []
       \<and> EnvVars root = [EnvVar ''HOME'' False]"
    unfolding e .
  with h2 h3 c1 c2 show ?thesis by blast
qed

lemma newChild_sel [simp]:
  "Command.Name (newChild lib opts name parent st) = name"
  "Parents (newChild lib opts name parent st) = Parents parent @ [Command.Name parent]"
  "ActionName (newChild lib opts name parent st) =
     computeActionName (Parents parent @ [Command.Name parent]) name"
  "Commands (newChild lib opts name parent st) = []"
  by (simp_all add: newChild_def Let_def)

lemma chained_withCommands:
  assumes "Parents c = ps" "ActionName c = computeActionName ps (Command.Name c)"
    and "\<forall>ch \<in> set children. chained (ps @ [Command.Name c]) ch"
  shows "chained ps (withCommands c children)"
  using assms by (intro chained.intros) simp_all

lemma buildChildren_chained:
  "buildChildren lib list i parent st = Inr out \<Longrightarrow>
   \<forall>c \<in> set out. chained (Parents parent @ [Command.Name parent]) c"
proof (induction lib list i parent st arbitrary: out rule: buildChildren.induct)
  case (1 lib i parent st)
  then show ?case by simp
next
  case (2 lib raw list i parent st)
  let ?ps = "Parents parent @ [Command.Name parent]"
  from "2.prems" obtain opts where raw: "raw = AnyMap opts"
    by (cases raw) auto
  let ?name = "fst (asString (index opts ''name''))"
  let ?cmd = "newChild lib opts ?name parent st"
  from "2.prems" raw have ne: "?name \<noteq> []"
    by (auto simp: Let_def split: if_splits)
  show ?case
  proof (cases "map_of opts ''commands''")
    case None
    with "2.prems" raw ne obtain rest where
      rest: "buildChildren lib list (Suc i) parent st = Inr rest" and out: "out = ?cmd # rest"
      by (auto simp: Let_def split: sum.splits)
    from "2.IH"(1) [OF raw refl ne refl None rest]
    have "\<forall>c \<in> set rest. chained ?ps c" .
    moreover have "chained ?ps ?cmd"
      by (rule chained.intros) simp_all
    ultimately show ?thesis by (simp add: out)
  next
    case (Some sub)
    with "2.prems" raw ne obtain subList where sub: "sub = AnyList subList"
      by (cases sub) (auto simp: Let_def)
    from "2.prems" raw ne Some sub obtain children rest where
      ch: "buildChildren lib subList 0 ?cmd st = Inr children"
      and rest: "buildChildren lib list (Suc i) parent st = Inr rest"
      and out: "out = withCommands ?cmd children # rest"
      by (auto simp: Let_def split: sum.splits)
    from "2.IH"(2) [OF raw refl ne refl Some sub ch]
    have "\<forall>c \<in> set children. chained (?ps @ [?name]) c" by simp
    then have "chained ?ps (withCommands ?cmd children)"
      by (intro chained_withCommands) simp_all
    moreover from "2.IH"(3) [OF raw refl ne refl Some sub ch rest]
    have "\<forall>c \<in> set rest. chained ?ps c" .
    ultimately show ?thesis by (simp add: out)
  qed
qed

lemma chained_deep:
  "chained ps c \<Longrightarrow> d \<in> set (deepCommandsFrom c) \<Longrightarrow>
   ActionName d = computeActionName (Parents d) (Command.Name d)
   \<and> take (length ps) (Parents d) = ps \<and> length ps \<le> length (Parents d)"
proof (induction arbitrary: d rule: chained.induct)
  case (1 c ps)
  from "1.prems" have "d = c \<or> (\<exists>ch \<in> set (Commands c). d \<in> set (deepCommandsFrom ch))"
    by (subst (asm) deepCommandsFrom.simps) auto
  then show ?case
  proof
    assume "d = c"
    with "1.hyps" show ?thesis by simp
  next
    assume "\<exists>ch \<in> set (Commands c). d \<in> set (deepCommandsFrom ch)"
    then obtain ch where ch: "ch \<in> set (Commands c)" "d \<in> set (deepCommandsFrom ch)"
      by blast
    with "1.IH" have r: "ActionName d = computeActionName (Parents d) (Command.Name d)"
      "take (length (ps @ [Command.Name c])) (Parents d) = ps @ [Command.Name c]"
      "length (ps @ [Command.Name c]) \<le> length (Parents d)"
      by blast+
    from r(2) have "take (length ps) (take (length (ps @ [Command.Name c])) (Parents d)) = ps"
      by simp
    then have "take (length ps) (Parents d) = ps"
      by (simp add: min_def)
    with r show ?thesis by simp
  qed
qed

lemma BuildFromConfigMap_chained:
  assumes "BuildFromConfigMap lib cfg st = Inr root"
  shows "Parents root = []" and "ActionName root = ''root''"
    and "\<forall>c \<in> set (Commands root). chained [Command.Name root] c"
proof -
  have "Parents root = [] \<and> ActionName root = ''root''
        \<and> (\<forall>c \<in> set (Commands root). chained [Command.Name root] c)"
  proof (cases "map_of cfg ''commands''")
    case None
    with assms have "root = newRoot lib cfg st"
      by (simp add: BuildFromConfigMap_def Let_def)
    then show ?thesis by simp
  next
    case (Some cmds)
    with assms obtain list where l: "cmds = AnyList list"
      by (cases cmds) (auto simp: BuildFromConfigMap_def Let_def)
    with assms Some obtain children where
      ch: "buildChildren lib list 0 (newRoot lib cfg st) st = Inr children"
      and root: "root = withCommands (newRoot lib cfg st) children"
      by (auto simp: BuildFromConfigMap_def Let_def split: sum.splits)
    from buildChildren_chained [OF ch] show ?thesis
      by (simp add: root)
  qed
  then show "Parents root = []" and "ActionName root = ''root''"
    and "\<forall>c \<in> set (Commands root). chained [Command.Name root] c"
    by blast+
qed

lemma chained_child:
  "chained ps c \<Longrightarrow> ch \<in> set (Commands c) \<Longrightarrow> chained (ps @ [Command.Name c]) ch"
  by (erule chained.cases) blast

lemma chained_self:
  "chained ps c \<Longrightarrow> Parents c = ps \<and> ActionName c = computeActionName ps (Command.Name c)"
  by (erule chained.cases) blast

text \<open>
  C6. In every tree the builder returns: the action name of the root is \<open>"root"\<close> (and
  the root has no parents); a direct child \<open>c\<close> of the root has the root's name as its
  only parent and its own name as its action name; a child \<open>g\<close> of \<open>c\<close> has the parents
  \<open>[root, c]\<close> and the action name \<open>"c g"\<close>; and every node \<open>d\<close> below a direct child \<open>c\<close>
  (at any depth) has at least two parents, the first two being the root and \<open>c\<close>, and
  its action name is \<open>parents[1:] + [name]\<close> joined by single spaces.
\<close>

theorem actionName_of_built_tree:
  "BuildFromConfigMap lib cfg st = Inr root \<Longrightarrow>
   ActionName root = ''root'' \<and> Parents root = []
   \<and> (\<forall>c \<in> set (Commands root).
         Parents c = [Command.Name root] \<and> ActionName c = Command.Name c
         \<and> (\<forall>g \<in> set (Commands c).
               Parents g = [Command.Name root, Command.Name c]
               \<and> ActionName g = Command.Name c @ '' '' @ Command.Name g)
         \<and> (\<forall>d \<in> set (DeepCommands c False).
               2 \<le> length (Parents d)
               \<and> take 2 (Parents d) = [Command.Name root, Command.Name c]
               \<and> ActionName d = Join (drop 1 (Parents d) @ [Command.Name d]) '' ''))"
proof -
  assume b: "BuildFromConfigMap lib cfg st = Inr root"
  note r = BuildFromConfigMap_chained [OF b]
  have "Parents c = [Command.Name root] \<and> ActionName c = Command.Name c
         \<and> (\<forall>g \<in> set (Commands c).
               Parents g = [Command.Name root, Command.Name c]
               \<and> ActionName g = Command.Name c @ '' '' @ Command.Name g)
         \<and> (\<forall>d \<in> set (DeepCommands c False).
               2 \<le> length (Parents d)
               \<and> take 2 (Parents d) = [Command.Name root, Command.Name c]
               \<and> ActionName d = Join (drop 1 (Parents d) @ [Command.Name d]) '' '')"
    if c: "c \<in> set (Commands root)" for c
  proof (intro conjI ballI)
    from r(3) c have cc: "chained [Command.Name root] c" by blast
    from chained_self [OF cc] show "Parents c = [Command.Name root]"
      and "ActionName c = Command.Name c"
      by (simp_all add: computeActionName_def)
    {
      fix g assume g: "g \<in> set (Commands c)"
      from chained_child [OF cc g] have cg: "chained [Command.Name root, Command.Name c] g"
        by simp
      from chained_self [OF cg] show "Parents g = [Command.Name root, Command.Name c]"
        and "ActionName g = Command.Name c @ '' '' @ Command.Name g"
        by (simp_all add: computeActionName_def)
    }
    {
      fix d assume "d \<in> set (DeepCommands c False)"
      then obtain g where g: "g \<in> set (Commands c)" and d: "d \<in> set (deepCommandsFrom g)"
        by (auto simp: DeepCommands_def)
      from chained_child [OF cc g] have cg: "chained [Command.Name root, Command.Name c] g"
        by simp
      from chained_deep [OF cg d]
      have a: "ActionName d = computeActionName (Parents d) (Command.Name d)"
        and t: "take 2 (Parents d) = [Command.Name root, Command.Name c]"
        and l: "2 \<le> length (Parents d)"
        by (simp_all add: numeral_2_eq_2)
      from l show "2 \<le> length (Parents d)" .
      from t show "take 2 (Parents d) = [Command.Name root, Command.Name c]" .
      from l have "length (Parents d) \<noteq> 0" "length (Parents d) \<noteq> 1" by auto
      with a show "ActionName d = Join (drop 1 (Parents d) @ [Command.Name d]) '' ''"
        unfolding computeActionName_def by (simp only: if_False)
    }
  qed
  with r show ?thesis by blast
qed

theorem actionName_of_built_tree_witness:
  "BuildFromConfigMap exampleLib
     [(''name'', AnyString ''cli''),
      (''commands'', AnyList [AnyMap [(''name'', AnyString ''c''),
         (''commands'', AnyList [AnyMap [(''name'', AnyString ''g'')]])]])] Default
   = Inr (Command.Command ''cli'' [] ''cli'' ''root'' False [] [] ''root_command.sh'' [] [] [] []
       [Command.Command ''c'' [''cli''] ''cli c'' ''c'' False [] [''c''] ''c_command.sh'' [] [] []
          []
          [Command.Command ''g'' [''cli'', ''c''] ''cli c g'' ''c g'' False [] [''g'']
             ''c_g_command.sh'' [] [] [] [] []]])
   \<and> ActionName
       (Command.Command ''cli'' [] ''cli'' ''root'' False [] [] ''root_command.sh'' [] [] [] []
       [Command.Command ''c'' [''cli''] ''cli c'' ''c'' False [] [''c''] ''c_command.sh'' [] [] []
          []
          [Command.Command ''g'' [''cli'', ''c''] ''cli c g'' ''c g'' False [] [''g'']
             ''c_g_command.sh'' [] [] [] [] []]]) = ''root''
   \<and> ActionName
       (Command.Command ''c'' [''cli''] ''cli c'' ''c'' False [] [''c''] ''c_command.sh'' [] [] []
          []
          [Command.Command ''g'' [''cli'', ''c''] ''cli c g'' ''c g'' False [] [''g'']
             ''c_g_command.sh'' [] [] [] [] []]) = ''c''
   \<and> ActionName
       (Command.Command ''g'' [''cli'', ''c''] ''cli c g'' ''c g'' False [] [''g'']
             ''c_g_command.sh'' [] [] [] [] []) = ''c'' @ '' '' @ ''g''"
proof -
  let ?g = "Command.Command ''g'' [''cli'', ''c''] ''cli c g'' ''c g'' False [] [''g'']
             ''c_g_command.sh'' [] [] [] [] []"
  let ?c = "Command.Command ''c'' [''cli''] ''cli c'' ''c'' False [] [''c''] ''c_command.sh'' [] [] []
          [] [?g]"
  let ?root = "Command.Command ''cli'' [] ''cli'' ''root'' False [] [] ''root_command.sh'' [] [] [] []
       [?c]"
  let ?cfg = "[(''name'', AnyString ''cli''),
      (''commands'', AnyList [AnyMap [(''name'', AnyString ''c''),
         (''commands'', AnyList [AnyMap [(''name'', AnyString ''g'')]])]])]"
  have b: "BuildFromConfigMap exampleLib ?cfg Default = Inr ?root"
    by (simp add: BuildFromConfigMap_def newRoot_def newChild_def withCommands_def Let_def
          index_def asString_def asBool_def Default_def exampleLib_def computeActionName_def
          normalizeAlias_def resolveFilename_def underscore_def ReplaceAll_byte_def
          parseArgs_def parseFlags_def parseEnvVars_def)
  note t = actionName_of_built_tree [OF b]
  from t have r: "ActionName ?root = ''root''" by blast
  from t have "\<forall>c \<in> set (Commands ?root). ActionName c = Command.Name c
         \<and> (\<forall>g \<in> set (Commands c). ActionName g = Command.Name c @ '' '' @ Command.Name g)"
    by blast
  then have c: "ActionName ?c = Command.Name ?c
      \<and> (\<forall>g \<in> set (Commands ?c). ActionName g = Command.Name ?c @ '' '' @ Command.Name g)"
    by simp
  then have g: "ActionName ?g = Command.Name ?c @ '' '' @ Command.Name ?g"
    by simp
  from b r c g show ?thesis by simp
qed

end
